theory Spec2Isabelle
  imports Main "HOL-Library.Word"
begin

unbundle bit_operations_syntax

section \<open>A two-pass assembler: shallow embedding of the C sources\<close>

text \<open>
  The development follows the C files one by one: \<^verbatim>\<open>utils.c\<close>, \<^verbatim>\<open>symbol_structs.c\<close>,
  \<^verbatim>\<open>first_pass.c\<close>, \<^verbatim>\<open>second_pass.c\<close> and \<^verbatim>\<open>pre_asm.c\<close>.

  Conventions of the embedding.
  \<^item> A C string is a \<open>string\<close> (the characters before the terminating NUL). Reading the
    character under a pointer is \<open>peek\<close>, which gives NUL at the end of the string.
  \<^item> \<^verbatim>\<open>unsigned int\<close> is \<open>32 word\<close>. The counters \<^verbatim>\<open>ic\<close>, \<^verbatim>\<open>dc\<close> and \<^verbatim>\<open>line_num\<close> are C
    \<^verbatim>\<open>int\<close>s; they are modelled as \<open>int\<close>, and every array access checks the index against
    \<open>MEM_SIZE\<close>.
  \<^item> The global arrays \<^verbatim>\<open>code[MEM_SIZE]\<close> and \<^verbatim>\<open>data[MEM_SIZE]\<close> are maps from the index to the
    word. The C source checks no index; an access outside \<open>0 ..< MEM_SIZE\<close>, pointer
    arithmetic on \<^verbatim>\<open>NULL\<close> and a read past the end of a string are undefined behaviour in C.
    State-changing functions therefore return an \<open>option\<close>, and \<open>None\<close> stands for
    such an execution.
  \<^item> A pointer that may be \<^verbatim>\<open>NULL\<close> (the result of \<^verbatim>\<open>extract_remaining_seq\<close>) is a
    \<open>string option\<close>; every caller states what it does with \<^verbatim>\<open>NULL\<close>.
  \<^item> \<^verbatim>\<open>print_error\<close> appends the message to the field \<open>errors\<close> of the state, together with
    the line number it prints.
  \<^item> The local buffers of the C code (\<^verbatim>\<open>char first_operand[MAX_OPERAND_LEN]\<close> and the like)
    are filled without a length check. The embedding has strings of any length and so
    describes the executions in which the buffers are large enough. \<^verbatim>\<open>malloc\<close> is assumed
    to succeed.
  \<^item> \<^verbatim>\<open>atoi\<close> is modelled on mathematical integers; C leaves its result undefined when the
    value does not fit an \<^verbatim>\<open>int\<close>.
\<close>

subsection \<open>\<^verbatim>\<open>utils.h\<close>: constants and enumerations\<close>

definition MAX_LINE_LEN :: nat where "MAX_LINE_LEN = 81"
definition MAX_SYMBOL_LEN :: nat where "MAX_SYMBOL_LEN = 31"
definition MAX_MCR_LEN :: nat where "MAX_MCR_LEN = 31"
definition MEM_SIZE :: int where "MEM_SIZE = 1024"
definition MEM_START :: int where "MEM_START = 100"
definition REG_LEN :: nat where "REG_LEN = 3"
definition MIN_REG_INDEX :: int where "MIN_REG_INDEX = 0"
definition MAX_REG_INDEX :: int where "MAX_REG_INDEX = 7"
definition ARE_BITS :: nat where "ARE_BITS = 2"
definition DEFAULT_ADDR :: "32 word" where "DEFAULT_ADDR = 0"
definition OP_MAX_NUM_COMMAS :: nat where "OP_MAX_NUM_COMMAS = 1"
definition OPCODE_BITS :: nat where "OPCODE_BITS = 4"
definition ADDR_MODE_BITS :: nat where "ADDR_MODE_BITS = 3"
definition SRC_MODE_START_POS :: nat where "SRC_MODE_START_POS = 9"
definition SRC_MODE_END_POS :: nat where "SRC_MODE_END_POS = 11"
definition DEST_MODE_START_POS :: nat where "DEST_MODE_START_POS = 2"
definition DEST_MODE_END_POS :: nat where "DEST_MODE_END_POS = 4"
definition BITS_IN_REG :: nat where "BITS_IN_REG = 5"
definition SKIP_TO_NUM_REG :: nat where "SKIP_TO_NUM_REG = 2"

datatype err =
    NOT_ENOUGH_PARAMS | MCR_EXP_FAILED | FIRST_PASS_FAILED | SECOND_PASS_FAILED
  | MEM_ALLOC_FAILED | MEM_REALLOC_FAILED | CANNOT_OPEN_FILE | CANNOT_CREATE_FILE
  | CANNOT_DELETE_FILE | MCR_TOO_LONG | MCR_CANNOT_BE_REG | MCR_CANNOT_BE_OP
  | MCR_CANNOT_BE_DIR | MCR_MISSING_NAME | MCR_MCRO_EXTRANEOUS_TEXT
  | MCR_ENDMCRO_EXTRANEOUS_TEXT | SYMBOL_ONLY | ILLEGAL_COMMA | CONSECUTIVE_COMMAS
  | UNDEFINED_OP_DIR | OP_EXTRANEOUS_COMMA | OP_MISSING_OPERAND | OP_EXTRANEOUS_TEXT
  | OP_INVALID_ADDR_MODE | OP_INVALID_OPERANDS_NUM | OP_INVALID_OPERANDS_MODE
  | DIR_MISSING_PARAMS | DATA_NOT_NUM | DATA_MISSING_COMMA | DATA_EXTRANEOUS_TEXT
  | STRING_NOT_STR | ENTRY_MISSING_SYMBOL | ENTRY_EXTRANEOUS_TEXT
  | EXTERN_MISSING_SYMBOL | EXTERN_EXTRANEOUS_TEXT | SYMBOL_TOO_LONG
  | SYMBOL_CANNOT_BE_REG | SYMBOL_CANNOT_BE_OP | SYMBOL_CANNOT_BE_DIR
  | SYMBOL_INVALID_FIRST_CHAR | SYMBOL_INVALID_CHAR | ENTRY_CANNOT_BE_EXTERN
  | ENTRY_SYMBOL_NOT_FOUND | SYMBOL_ALREADY_EXISTS | SYMBOL_NOT_FOUND

datatype are = ABSOLUTE | EXTERNAL | RELOCATABLE

fun are_val :: "are \<Rightarrow> 32 word" where
  "are_val ABSOLUTE = 0"
| "are_val EXTERNAL = 1"
| "are_val RELOCATABLE = 2"

text \<open>
  \<^verbatim>\<open>enum addressing_mode { IMMEDIATE_ADDR = 1, DIRECT_ADDR = 3, REG_DIRECT_ADDR = 5,
  NONE_ADDR = -1 }\<close>. The second pass casts three bits of a code word to this type, so a
  variable of the type can hold any small integer; the type is modelled by its integer
  values.
\<close>

type_synonym addressing_mode = int

definition IMMEDIATE_ADDR :: addressing_mode where "IMMEDIATE_ADDR = 1"
definition DIRECT_ADDR :: addressing_mode where "DIRECT_ADDR = 3"
definition REG_DIRECT_ADDR :: addressing_mode where "REG_DIRECT_ADDR = 5"
definition NONE_ADDR :: addressing_mode where "NONE_ADDR = - 1"

datatype opcode =
    MOV_OP | CMP_OP | ADD_OP | SUB_OP | NOT_OP | CLR_OP | LEA_OP | INC_OP
  | DEC_OP | JMP_OP | BNE_OP | RED_OP | PRN_OP | JSR_OP | RTS_OP | STOP_OP
  | NONE_OP

text \<open>The integer value of each enumerator (\<^verbatim>\<open>MOV_OP\<close> is 0, \<^verbatim>\<open>NONE_OP\<close> is -1).\<close>

fun opcode_val :: "opcode \<Rightarrow> int" where
  "opcode_val MOV_OP = 0"
| "opcode_val CMP_OP = 1"
| "opcode_val ADD_OP = 2"
| "opcode_val SUB_OP = 3"
| "opcode_val NOT_OP = 4"
| "opcode_val CLR_OP = 5"
| "opcode_val LEA_OP = 6"
| "opcode_val INC_OP = 7"
| "opcode_val DEC_OP = 8"
| "opcode_val JMP_OP = 9"
| "opcode_val BNE_OP = 10"
| "opcode_val RED_OP = 11"
| "opcode_val PRN_OP = 12"
| "opcode_val JSR_OP = 13"
| "opcode_val RTS_OP = 14"
| "opcode_val STOP_OP = 15"
| "opcode_val NONE_OP = - 1"

datatype directive = DATA | STRING | ENTRY | EXTERN | NONE_DIR

datatype statement_type = INSTRUCTION | DIRECTIVE

subsection \<open>Characters\<close>

definition NUL :: char where "NUL = CHR 0x00"
definition TAB :: char where "TAB = CHR 0x09"
definition NEWLINE :: char where "NEWLINE = CHR 0x0A"

text \<open>The classification functions of \<^verbatim>\<open>ctype.h\<close> in the C locale.\<close>

definition isspace :: "char \<Rightarrow> bool" where
  "isspace c = (c = CHR '' '' \<or> (9 \<le> (of_char c :: nat) \<and> (of_char c :: nat) \<le> 13))"

definition isdigit :: "char \<Rightarrow> bool" where
  "isdigit c = (48 \<le> (of_char c :: nat) \<and> (of_char c :: nat) \<le> 57)"

definition isalpha :: "char \<Rightarrow> bool" where
  "isalpha c = ((65 \<le> (of_char c :: nat) \<and> (of_char c :: nat) \<le> 90)
              \<or> (97 \<le> (of_char c :: nat) \<and> (of_char c :: nat) \<le> 122))"

definition isalnum :: "char \<Rightarrow> bool" where
  "isalnum c = (isalpha c \<or> isdigit c)"

text \<open>\<^verbatim>\<open>*s\<close> for a C string \<open>s\<close>: the first character, or the terminator.\<close>

fun peek :: "string \<Rightarrow> char" where
  "peek [] = NUL"
| "peek (c # cs) = c"

text \<open>
  \<^verbatim>\<open>atoi\<close>: leading white space, an optional sign, then the longest run of digits.
\<close>

fun digits_val :: "int \<Rightarrow> string \<Rightarrow> int" where
  "digits_val acc [] = acc"
| "digits_val acc (c # cs) =
     (if isdigit c then digits_val (10 * acc + (int (of_char c) - 48)) cs else acc)"

definition atoi :: "string \<Rightarrow> int" where
  "atoi str =
     (let s = dropWhile isspace str in
      if peek s = CHR ''-'' then - digits_val 0 (tl s)
      else if peek s = CHR ''+'' then digits_val 0 (tl s)
      else digits_val 0 s)"

subsection \<open>\<^verbatim>\<open>utils.c\<close>: lexical utilities\<close>

text \<open>
  \<^verbatim>\<open>trim_whitespaces\<close> finds the first non-space index \<open>left\<close> and the last non-space
  index \<open>right\<close>, moves the characters between them to the front and terminates the
  string after them.
\<close>

definition trim_whitespaces :: "string \<Rightarrow> string" where
  "trim_whitespaces str = rev (dropWhile isspace (rev (dropWhile isspace str)))"

definition skip_whitespaces :: "string \<Rightarrow> string" where
  "skip_whitespaces str = dropWhile isspace str"

text \<open>\<^verbatim>\<open>trim_end_whitespaces\<close> overwrites trailing white space with NUL.\<close>

definition trim_end_whitespaces :: "string \<Rightarrow> string" where
  "trim_end_whitespaces str = rev (dropWhile isspace (rev str))"

definition is_empty :: "string \<Rightarrow> bool" where
  "is_empty line = (skip_whitespaces line = [])"

definition should_ignore :: "string \<Rightarrow> bool" where
  "should_ignore line =
     (let l = skip_whitespaces line in is_empty l \<or> peek l = CHR '';'')"

definition is_separator :: "char \<Rightarrow> string \<Rightarrow> bool" where
  "is_separator c seps = (c \<in> set seps)"

text \<open>The three separator strings the callers pass.\<close>

definition SEPS_LABEL :: string where "SEPS_LABEL = [CHR '':'', TAB, CHR '' '']"
definition SEPS_COMMA :: string where "SEPS_COMMA = [CHR '','', TAB, CHR '' '']"
definition SEPS_BLANK :: string where "SEPS_BLANK = [TAB, CHR '' '']"

text \<open>
  \<^verbatim>\<open>copy_next_token(dest, src, seps)\<close>; the result is the string left in \<^verbatim>\<open>dest\<close>. The
  loop stops at a separator or at the terminator; a colon that stopped it is copied too.
\<close>

definition copy_next_token :: "string \<Rightarrow> string \<Rightarrow> string" where
  "copy_next_token src seps =
     (let s = skip_whitespaces src in
      if is_empty s then []
      else
        let tok = takeWhile (\<lambda>c. \<not> is_separator c seps) s;
            rest = dropWhile (\<lambda>c. \<not> is_separator c seps) s
        in if peek rest = CHR '':'' then tok @ [CHR '':''] else tok)"

text \<open>
  \<^verbatim>\<open>extract_remaining_seq(seq, seps)\<close>: \<open>None\<close> is the \<^verbatim>\<open>NULL\<close> returned for an empty or
  blank argument.
\<close>

definition extract_remaining_seq :: "string \<Rightarrow> string \<Rightarrow> string option" where
  "extract_remaining_seq seq seps =
     (let s = skip_whitespaces seq in
      if is_empty s then None
      else
        let r = dropWhile (\<lambda>c. \<not> is_separator c seps) s;
            r' = (if peek r = CHR '':'' then tl r else r)
        in Some (skip_whitespaces r'))"

definition is_register :: "string \<Rightarrow> bool" where
  "is_register token =
     (length token = REG_LEN \<and> token ! 0 = CHR ''@'' \<and> token ! 1 = CHR ''r''
      \<and> isdigit (token ! 2)
      \<and> MIN_REG_INDEX \<le> int (of_char (token ! 2)) - 48
      \<and> int (of_char (token ! 2)) - 48 \<le> MAX_REG_INDEX)"

definition find_operation :: "string \<Rightarrow> opcode" where
  "find_operation op_name =
     (if op_name = ''mov'' then MOV_OP
      else if op_name = ''cmp'' then CMP_OP
      else if op_name = ''add'' then ADD_OP
      else if op_name = ''sub'' then SUB_OP
      else if op_name = ''not'' then NOT_OP
      else if op_name = ''clr'' then CLR_OP
      else if op_name = ''lea'' then LEA_OP
      else if op_name = ''inc'' then INC_OP
      else if op_name = ''dec'' then DEC_OP
      else if op_name = ''jmp'' then JMP_OP
      else if op_name = ''bne'' then BNE_OP
      else if op_name = ''red'' then RED_OP
      else if op_name = ''prn'' then PRN_OP
      else if op_name = ''jsr'' then JSR_OP
      else if op_name = ''rts'' then RTS_OP
      else if op_name = ''stop'' then STOP_OP
      else NONE_OP)"

definition find_directive :: "string \<Rightarrow> directive" where
  "find_directive dir_name =
     (if dir_name = ''.data'' then DATA
      else if dir_name = ''.string'' then STRING
      else if dir_name = ''.entry'' then ENTRY
      else if dir_name = ''.extern'' then EXTERN
      else NONE_DIR)"

text \<open>
  \<^verbatim>\<open>is_symbol(token, is_colon_expected)\<close>. The result pairs the returned boolean with the
  messages the call prints. With \<^verbatim>\<open>is_colon_expected\<close> the C code reads
  \<^verbatim>\<open>token_copy[token_len - 1]\<close>, which lies before the buffer when the token is empty; no
  caller passes an empty token there, and the embedding answers \<open>False\<close>.
\<close>

definition is_symbol :: "string \<Rightarrow> bool \<Rightarrow> bool \<times> err list" where
  "is_symbol token is_colon_expected =
     (if is_colon_expected \<and> (token = [] \<or> last token \<noteq> CHR '':'') then (False, [])
      else
        let token_copy = (if is_colon_expected then butlast token else token) in
        if length token_copy > MAX_SYMBOL_LEN then (False, [SYMBOL_TOO_LONG])
        else if is_register token_copy then (False, [SYMBOL_CANNOT_BE_REG])
        else if find_operation token_copy \<noteq> NONE_OP then (False, [SYMBOL_CANNOT_BE_OP])
        else if find_directive token_copy \<noteq> NONE_DIR then (False, [SYMBOL_CANNOT_BE_DIR])
        else if \<not> isalpha (peek token_copy) then (False, [SYMBOL_INVALID_FIRST_CHAR])
        else if \<not> list_all isalnum (tl token_copy) then (False, [SYMBOL_INVALID_CHAR])
        else (True, []))"

definition encode_are :: "32 word \<Rightarrow> are \<Rightarrow> 32 word" where
  "encode_are word are_val' = push_bit ARE_BITS word OR are_val are_val'"

text \<open>
  \<^verbatim>\<open>extract_bits(word, start, end)\<close>; the callers pass constant positions with
  \<open>start \<le> end\<close>.
\<close>

definition extract_bits :: "32 word \<Rightarrow> nat \<Rightarrow> nat \<Rightarrow> 32 word" where
  "extract_bits word start end' =
     (let num_bits = end' - start + 1;
          mask = push_bit num_bits 1 - 1
      in drop_bit start word AND mask)"


subsection \<open>The global state\<close>

text \<open>
  \<^verbatim>\<open>struct symbol\<close>. The field \<^verbatim>\<open>type\<close> is \<open>sym_type\<close>; \<^verbatim>\<open>create_symbol\<close> leaves it
  unassigned for a symbol that is not external, which is \<open>None\<close> here.
\<close>

record symbol =
  name :: string
  address :: "32 word"
  sym_type :: "statement_type option"
  is_ext :: bool
  is_ent :: bool

text \<open>\<^verbatim>\<open>struct ext\<close>: one reference to an external symbol.\<close>

record ext =
  ext_name :: string
  ext_address :: "32 word"

text \<open>
  The global variables of \<^verbatim>\<open>main.c\<close>. The two linked lists are lists in link order; a
  pointer to a node is the position of the node. \<open>errors\<close> collects what
  \<^verbatim>\<open>print_error\<close> prints.
\<close>

record asm_state =
  is_entry_exists :: bool
  is_extern_exists :: bool
  code :: "nat \<Rightarrow> 32 word"
  data :: "nat \<Rightarrow> 32 word"
  ic :: int
  dc :: int
  line_num :: int
  symbol_table :: "symbol list"
  ext_table :: "ext list"
  errors :: "(int \<times> err) list"

text \<open>The state at program start: the globals have static storage and are zero.\<close>

definition init_state :: asm_state where
  "init_state =
     \<lparr> is_entry_exists = False, is_extern_exists = False,
       code = (\<lambda>_. 0), data = (\<lambda>_. 0), ic = 0, dc = 0, line_num = 0,
       symbol_table = [], ext_table = [], errors = [] \<rparr>"

definition print_error :: "err \<Rightarrow> asm_state \<Rightarrow> asm_state" where
  "print_error error s = s\<lparr>errors := errors s @ [(line_num s, error)]\<rparr>"

definition print_errors :: "err list \<Rightarrow> asm_state \<Rightarrow> asm_state" where
  "print_errors es s = s\<lparr>errors := errors s @ map (\<lambda>e. (line_num s, e)) es\<rparr>"

definition append_word_to_code :: "32 word \<Rightarrow> asm_state \<Rightarrow> asm_state option" where
  "append_word_to_code word s =
     (if 0 \<le> ic s \<and> ic s < MEM_SIZE
      then Some (s\<lparr>code := (code s)(nat (ic s) := word), ic := ic s + 1\<rparr>)
      else None)"

subsection \<open>\<^verbatim>\<open>symbol_structs.c\<close>\<close>

definition update_symbol_addr ::
    "symbol list \<Rightarrow> 32 word \<Rightarrow> statement_type \<Rightarrow> symbol list" where
  "update_symbol_addr table addr_inc type' =
     map (\<lambda>current_symbol.
            if \<not> is_ext current_symbol \<and> sym_type current_symbol = Some type'
            then current_symbol\<lparr>address := address current_symbol + addr_inc\<rparr>
            else current_symbol) table"

text \<open>The position of the first symbol with the given name; \<open>None\<close> is \<^verbatim>\<open>NULL\<close>.\<close>

fun find_symbol :: "symbol list \<Rightarrow> string \<Rightarrow> nat option" where
  "find_symbol [] name' = None"
| "find_symbol (current_symbol # rest) name' =
     (if name current_symbol = name' then Some 0
      else map_option Suc (find_symbol rest name'))"

definition make_entry :: "string \<Rightarrow> asm_state \<Rightarrow> bool \<times> asm_state" where
  "make_entry name' s =
     (case find_symbol (symbol_table s) name' of
        Some i \<Rightarrow>
          if is_ext (symbol_table s ! i)
          then (False, print_error ENTRY_CANNOT_BE_EXTERN s)
          else (True, s\<lparr>symbol_table :=
                          (symbol_table s)[i := (symbol_table s ! i)\<lparr>is_ent := True\<rparr>],
                        is_entry_exists := True\<rparr>)
      | None \<Rightarrow> (False, print_error ENTRY_SYMBOL_NOT_FOUND s))"

text \<open>\<^verbatim>\<open>NONE_ADDR\<close> converted to \<^verbatim>\<open>unsigned int\<close> is the answer for a missing symbol.\<close>

definition get_symbol_addr :: "symbol list \<Rightarrow> string \<Rightarrow> 32 word" where
  "get_symbol_addr head name' =
     (case find_symbol head name' of
        Some i \<Rightarrow> address (head ! i)
      | None \<Rightarrow> word_of_int NONE_ADDR)"

definition is_extern_symbol :: "symbol list \<Rightarrow> string \<Rightarrow> bool" where
  "is_extern_symbol head name' =
     (case find_symbol head name' of Some i \<Rightarrow> is_ext (head ! i) | None \<Rightarrow> False)"

definition is_existing_symbol :: "symbol list \<Rightarrow> string \<Rightarrow> bool" where
  "is_existing_symbol head name' = (find_symbol head name' \<noteq> None)"

definition create_symbol ::
    "string \<Rightarrow> 32 word \<Rightarrow> bool \<Rightarrow> asm_state \<Rightarrow> symbol \<times> asm_state" where
  "create_symbol name' address' is_ext' s =
     (if is_ext'
      then (\<lparr>name = name', address = address', sym_type = Some DIRECTIVE,
             is_ext = True, is_ent = False\<rparr>,
            s\<lparr>is_extern_exists := True\<rparr>)
      else (\<lparr>name = name', address = address', sym_type = None,
             is_ext = False, is_ent = False\<rparr>, s))"

text \<open>The result is the position of the new node, or \<open>None\<close> for \<^verbatim>\<open>NULL\<close>.\<close>

definition add_symbol_to_list ::
    "string \<Rightarrow> 32 word \<Rightarrow> bool \<Rightarrow> asm_state \<Rightarrow> nat option \<times> asm_state" where
  "add_symbol_to_list name' address' is_ext' s =
     (if is_existing_symbol (symbol_table s) name'
      then (None, print_error SYMBOL_ALREADY_EXISTS s)
      else
        let (new_symbol, s1) = create_symbol name' address' is_ext' s
        in (Some (length (symbol_table s1)),
            s1\<lparr>symbol_table := symbol_table s1 @ [new_symbol]\<rparr>))"

definition delete_symbol :: "symbol list \<Rightarrow> string \<Rightarrow> symbol list" where
  "delete_symbol head name' =
     (case find_symbol head name' of
        Some i \<Rightarrow> take i head @ drop (Suc i) head
      | None \<Rightarrow> head)"

definition create_ext :: "string \<Rightarrow> 32 word \<Rightarrow> ext" where
  "create_ext name' address' = \<lparr>ext_name = name', ext_address = address'\<rparr>"

definition add_ext_to_list :: "ext list \<Rightarrow> string \<Rightarrow> 32 word \<Rightarrow> ext list" where
  "add_ext_to_list head name' address' = head @ [create_ext name' address']"


subsection \<open>\<^verbatim>\<open>first_pass.c\<close>: classifiers and encoders\<close>

definition is_number :: "string \<Rightarrow> bool" where
  "is_number seq =
     (if peek seq = CHR ''+'' \<or> peek seq = CHR ''-''
      then isdigit (peek (tl seq)) \<and> list_all isdigit (tl (tl seq))
      else list_all isdigit seq)"

definition is_string :: "string \<Rightarrow> bool" where
  "is_string str =
     (if length str < 2 \<or> peek str \<noteq> CHR 0x22 \<or> last str \<noteq> CHR 0x22 then False
      else list_all (\<lambda>c. c \<noteq> CHR 0x22) (butlast (tl str)))"

text \<open>The second component is what the call of \<^verbatim>\<open>is_symbol\<close> inside prints.\<close>

definition detect_addr_mode :: "string \<Rightarrow> addressing_mode \<times> err list" where
  "detect_addr_mode operand =
     (if is_number operand then (IMMEDIATE_ADDR, [])
      else if is_register operand then (REG_DIRECT_ADDR, [])
      else
        let (ok, msgs) = is_symbol operand False
        in if ok then (DIRECT_ADDR, msgs) else (NONE_ADDR, msgs))"

fun is_valid_operand_count :: "opcode \<Rightarrow> bool \<Rightarrow> bool \<Rightarrow> bool" where
  "is_valid_operand_count MOV_OP has_first has_second = (has_first \<and> has_second)"
| "is_valid_operand_count CMP_OP has_first has_second = (has_first \<and> has_second)"
| "is_valid_operand_count ADD_OP has_first has_second = (has_first \<and> has_second)"
| "is_valid_operand_count SUB_OP has_first has_second = (has_first \<and> has_second)"
| "is_valid_operand_count LEA_OP has_first has_second = (has_first \<and> has_second)"
| "is_valid_operand_count NOT_OP has_first has_second = (has_first \<and> \<not> has_second)"
| "is_valid_operand_count CLR_OP has_first has_second = (has_first \<and> \<not> has_second)"
| "is_valid_operand_count INC_OP has_first has_second = (has_first \<and> \<not> has_second)"
| "is_valid_operand_count DEC_OP has_first has_second = (has_first \<and> \<not> has_second)"
| "is_valid_operand_count JMP_OP has_first has_second = (has_first \<and> \<not> has_second)"
| "is_valid_operand_count BNE_OP has_first has_second = (has_first \<and> \<not> has_second)"
| "is_valid_operand_count RED_OP has_first has_second = (has_first \<and> \<not> has_second)"
| "is_valid_operand_count PRN_OP has_first has_second = (has_first \<and> \<not> has_second)"
| "is_valid_operand_count JSR_OP has_first has_second = (has_first \<and> \<not> has_second)"
| "is_valid_operand_count RTS_OP has_first has_second = (\<not> has_first \<and> \<not> has_second)"
| "is_valid_operand_count STOP_OP has_first has_second = (\<not> has_first \<and> \<not> has_second)"
| "is_valid_operand_count NONE_OP has_first has_second = False"

definition mode_3_5 :: "addressing_mode \<Rightarrow> bool" where
  "mode_3_5 m = (m = DIRECT_ADDR \<or> m = REG_DIRECT_ADDR)"

definition mode_1_3_5 :: "addressing_mode \<Rightarrow> bool" where
  "mode_1_3_5 m = (m = IMMEDIATE_ADDR \<or> m = DIRECT_ADDR \<or> m = REG_DIRECT_ADDR)"

fun is_valid_mode_combination ::
    "opcode \<Rightarrow> addressing_mode \<Rightarrow> addressing_mode \<Rightarrow> bool" where
  "is_valid_mode_combination MOV_OP first_mode second_mode =
     (mode_1_3_5 first_mode \<and> mode_3_5 second_mode)"
| "is_valid_mode_combination ADD_OP first_mode second_mode =
     (mode_1_3_5 first_mode \<and> mode_3_5 second_mode)"
| "is_valid_mode_combination SUB_OP first_mode second_mode =
     (mode_1_3_5 first_mode \<and> mode_3_5 second_mode)"
| "is_valid_mode_combination LEA_OP first_mode second_mode =
     (first_mode = DIRECT_ADDR \<and> mode_3_5 second_mode)"
| "is_valid_mode_combination NOT_OP first_mode second_mode = mode_3_5 first_mode"
| "is_valid_mode_combination CLR_OP first_mode second_mode = mode_3_5 first_mode"
| "is_valid_mode_combination INC_OP first_mode second_mode = mode_3_5 first_mode"
| "is_valid_mode_combination DEC_OP first_mode second_mode = mode_3_5 first_mode"
| "is_valid_mode_combination JMP_OP first_mode second_mode = mode_3_5 first_mode"
| "is_valid_mode_combination BNE_OP first_mode second_mode = mode_3_5 first_mode"
| "is_valid_mode_combination RED_OP first_mode second_mode = mode_3_5 first_mode"
| "is_valid_mode_combination JSR_OP first_mode second_mode = mode_3_5 first_mode"
| "is_valid_mode_combination PRN_OP first_mode second_mode = True"
| "is_valid_mode_combination CMP_OP first_mode second_mode = True"
| "is_valid_mode_combination RTS_OP first_mode second_mode = True"
| "is_valid_mode_combination STOP_OP first_mode second_mode = True"
| "is_valid_mode_combination NONE_OP first_mode second_mode = False"

text \<open>
  \<^verbatim>\<open>data[dc++] = (unsigned int)num\<close>: the conversion of an \<^verbatim>\<open>int\<close> to \<^verbatim>\<open>unsigned int\<close> is
  \<open>word_of_int\<close>.
\<close>

definition append_number_to_data :: "int \<Rightarrow> asm_state \<Rightarrow> asm_state option" where
  "append_number_to_data num s =
     (if 0 \<le> dc s \<and> dc s < MEM_SIZE
      then Some (s\<lparr>data := (data s)(nat (dc s) := word_of_int num), dc := dc s + 1\<rparr>)
      else None)"

text \<open>
  \<^verbatim>\<open>(unsigned int)ch\<close> for a plain \<^verbatim>\<open>char\<close>. For the codes below 128 the result is the
  code; above, it depends on the signedness of \<^verbatim>\<open>char\<close>, taken as signed here.
\<close>

definition char_to_uint :: "char \<Rightarrow> 32 word" where
  "char_to_uint ch =
     (if (of_char ch :: nat) < 128 then of_nat (of_char ch)
      else word_of_int (int (of_char ch) - 256))"

definition append_character_to_data :: "char \<Rightarrow> asm_state \<Rightarrow> asm_state option" where
  "append_character_to_data ch s =
     (if 0 \<le> dc s \<and> dc s < MEM_SIZE
      then Some (s\<lparr>data := (data s)(nat (dc s) := char_to_uint ch), dc := dc s + 1\<rparr>)
      else None)"

definition get_additional_word_count ::
    "bool \<Rightarrow> bool \<Rightarrow> addressing_mode \<Rightarrow> addressing_mode \<Rightarrow> int" where
  "get_additional_word_count has_first has_second first_mode second_mode =
     (let count = 0;
          count = (if has_first then count + 1 else count);
          count = (if has_second then count + 1 else count);
          count = (if has_first \<and> has_second \<and> first_mode = REG_DIRECT_ADDR
                      \<and> second_mode = REG_DIRECT_ADDR
                   then count - 1 else count)
      in count)"

text \<open>
  The bit operations of \<^verbatim>\<open>encode_first_op_word\<close> are done on \<^verbatim>\<open>int\<close>s and the result is
  converted to \<^verbatim>\<open>unsigned int\<close>. (For a negative operand, C leaves the shift undefined;
  the function is called with the values of the enumerators other than \<^verbatim>\<open>NONE_ADDR\<close> in
  the positions it uses.)
\<close>

definition encode_first_op_word ::
    "opcode \<Rightarrow> bool \<Rightarrow> bool \<Rightarrow> addressing_mode \<Rightarrow> addressing_mode \<Rightarrow> 32 word" where
  "encode_first_op_word op_type has_first has_second first_mode second_mode =
     (let word :: 32 word =
        (if has_first \<and> has_second
         then word_of_int (push_bit (OPCODE_BITS + ADDR_MODE_BITS) first_mode
                           OR push_bit ADDR_MODE_BITS (opcode_val op_type) OR second_mode)
         else if has_first
         then word_of_int (push_bit ADDR_MODE_BITS (opcode_val op_type) OR first_mode)
         else word_of_int (push_bit ADDR_MODE_BITS (opcode_val op_type)))
      in encode_are word ABSOLUTE)"

definition count_commas :: "string \<Rightarrow> nat" where
  "count_commas str = length (filter (\<lambda>c. c = CHR '','') str)"

text \<open>The loop of \<^verbatim>\<open>has_consecutive_commas\<close>, with its flag \<^verbatim>\<open>comma_found\<close>.\<close>

fun consecutive_commas_from :: "bool \<Rightarrow> string \<Rightarrow> bool" where
  "consecutive_commas_from comma_found [] = False"
| "consecutive_commas_from comma_found (c # cs) =
     (if c = CHR '','' \<and> comma_found then True
      else if c = CHR '','' then consecutive_commas_from True cs
      else if \<not> isspace c then consecutive_commas_from False cs
      else consecutive_commas_from comma_found cs)"

definition has_consecutive_commas :: "string \<Rightarrow> bool" where
  "has_consecutive_commas str = consecutive_commas_from False str"


subsection \<open>\<^verbatim>\<open>first_pass.c\<close>: operations\<close>

text \<open>\<^verbatim>\<open>is_empty\<close> applied to a pointer that may be \<^verbatim>\<open>NULL\<close>.\<close>

fun is_empty_ptr :: "string option \<Rightarrow> bool" where
  "is_empty_ptr None = True"
| "is_empty_ptr (Some line) = is_empty line"

text \<open>
  The first part of \<^verbatim>\<open>process_operation\<close>, up to the test for extraneous text: it
  finds the operands. The result is \<open>Inl\<close> of the error printed, or \<open>Inr\<close> of
  \<^verbatim>\<open>has_first_operand\<close>, \<^verbatim>\<open>has_second_operand\<close>, \<^verbatim>\<open>first_operand\<close> and
  \<^verbatim>\<open>second_operand\<close>. A buffer that was not written is given as the empty string; the
  code does not read it when the flag is false.
\<close>

definition get_operands ::
    "opcode \<Rightarrow> string \<Rightarrow> (err + bool \<times> bool \<times> string \<times> string) option" where
  "get_operands op_type line =
     (let commas_cnt = count_commas line in
      if commas_cnt > OP_MAX_NUM_COMMAS then Some (Inl OP_EXTRANEOUS_COMMA)
      else if commas_cnt \<noteq> 0 then
        (let first_operand = copy_next_token line SEPS_COMMA;
             line1 = extract_remaining_seq line SEPS_COMMA
         in if \<not> is_empty first_operand then
              (case line1 of
                 None \<Rightarrow> None
               | Some l1 \<Rightarrow>
                   if peek l1 = CHR '','' then
                     (let l2 = tl l1;
                          second_operand = copy_next_token l2 SEPS_BLANK;
                          line3 = extract_remaining_seq l2 SEPS_BLANK
                      in if \<not> is_empty second_operand then
                           (if \<not> is_empty_ptr line3 then Some (Inl OP_EXTRANEOUS_TEXT)
                            else Some (Inr (True, True, first_operand, second_operand)))
                         else Some (Inl OP_MISSING_OPERAND))
                   else Some (Inl OP_EXTRANEOUS_TEXT))
            else Some (Inl OP_MISSING_OPERAND))
      else
        (let first_operand = copy_next_token line SEPS_BLANK;
             line1 = extract_remaining_seq line SEPS_BLANK
         in if \<not> is_empty first_operand then
              (if \<not> is_empty_ptr line1 then Some (Inl OP_EXTRANEOUS_TEXT)
               else Some (Inr (True, False, first_operand, [])))
            else if op_type \<noteq> RTS_OP \<and> op_type \<noteq> STOP_OP then Some (Inl OP_MISSING_OPERAND)
            else if \<not> is_empty_ptr line1 then Some (Inl OP_EXTRANEOUS_TEXT)
            else Some (Inr (False, False, first_operand, []))))"

definition process_operation ::
    "opcode \<Rightarrow> string \<Rightarrow> asm_state \<Rightarrow> (bool \<times> asm_state) option" where
  "process_operation op_type line s =
     (case get_operands op_type line of
        None \<Rightarrow> None
      | Some (Inl e) \<Rightarrow> Some (False, print_error e s)
      | Some (Inr (has_first_operand, has_second_operand, first_operand, second_operand)) \<Rightarrow>
          let (first_operand_addr_mode, msgs1) =
                (if has_first_operand then detect_addr_mode first_operand else (NONE_ADDR, []));
              (second_operand_addr_mode, msgs2) =
                (if has_second_operand then detect_addr_mode second_operand
                 else (NONE_ADDR, []));
              s1 = print_errors (msgs1 @ msgs2) s
          in if (has_first_operand \<and> first_operand_addr_mode = NONE_ADDR)
                \<or> (has_second_operand \<and> second_operand_addr_mode = NONE_ADDR)
             then Some (False, print_error OP_INVALID_ADDR_MODE s1)
             else if \<not> is_valid_operand_count op_type has_first_operand has_second_operand
             then Some (False, print_error OP_INVALID_OPERANDS_NUM s1)
             else if \<not> is_valid_mode_combination op_type first_operand_addr_mode
                         second_operand_addr_mode
             then Some (False, print_error OP_INVALID_OPERANDS_MODE s1)
             else
               (case append_word_to_code
                       (encode_first_op_word op_type has_first_operand has_second_operand
                          first_operand_addr_mode second_operand_addr_mode) s1 of
                  None \<Rightarrow> None
                | Some s2 \<Rightarrow>
                    Some (True,
                      s2\<lparr>ic := ic s2 + get_additional_word_count has_first_operand
                                 has_second_operand first_operand_addr_mode
                                 second_operand_addr_mode\<rparr>)))"

subsection \<open>\<^verbatim>\<open>first_pass.c\<close>: directives\<close>

text \<open>
  The loop of \<^verbatim>\<open>process_data_dir\<close>. \<^verbatim>\<open>line\<close> is not empty when
  \<^verbatim>\<open>extract_remaining_seq\<close> is called, so the call does not give \<^verbatim>\<open>NULL\<close>. When the rest
  \<open>l\<close> is the empty string, the C code evaluates \<^verbatim>\<open>is_empty(line + 1)\<close> on the bytes after
  the terminator before it finds \<^verbatim>\<open>line[0] == ','\<close> false; the conjunction is false whatever
  is read there.
\<close>

function process_data_dir :: "string \<Rightarrow> asm_state \<Rightarrow> (bool \<times> asm_state) option" where
  "process_data_dir line s =
     (if is_empty line then Some (True, s)
      else
        let param = copy_next_token line SEPS_COMMA in
        if \<not> is_number param then Some (False, print_error DATA_NOT_NUM s)
        else
          (case extract_remaining_seq line SEPS_COMMA of
             None \<Rightarrow> None
           | Some l \<Rightarrow>
               if \<not> is_empty l \<and> peek l \<noteq> CHR '','' then
                 Some (False, print_error DATA_MISSING_COMMA s)
               else if is_empty (tl l) \<and> peek l = CHR '','' then
                 Some (False, print_error DATA_EXTRANEOUS_TEXT s)
               else
                 (case append_number_to_data (atoi param) s of
                    None \<Rightarrow> None
                  | Some s1 \<Rightarrow>
                      if \<not> is_empty l then process_data_dir (tl l) s1
                      else Some (True, s1))))"
  by pat_completeness auto
termination
proof (relation "measure (\<lambda>(line, s). length line)")
  show "wf (measure (\<lambda>(line, s). length line))" by simp
next
  fix line :: string and s :: asm_state and x xa x2 x2a
  assume ne: "\<not> is_empty x2" and ex: "extract_remaining_seq line SEPS_COMMA = Some x2"
  have dw: "\<And>P (xs :: string). length (dropWhile P xs) \<le> length xs"
    by (simp add: length_dropWhile_le)
  define d where "d = dropWhile (\<lambda>c. \<not> is_separator c SEPS_COMMA) (skip_whitespaces line)"
  have "length d \<le> length line"
    unfolding d_def skip_whitespaces_def using dw le_trans by blast
  moreover have "length (tl d) \<le> length d" by simp
  moreover have "x2 = skip_whitespaces (if peek d = CHR '':'' then tl d else d)"
    using ex unfolding extract_remaining_seq_def d_def
    by (simp add: Let_def split: if_splits)
  ultimately have le: "length x2 \<le> length line"
    unfolding skip_whitespaces_def
    by (metis (full_types) dw le_trans)
  have "x2 \<noteq> []" using ne by (auto simp: is_empty_def skip_whitespaces_def)
  then have "length (tl x2) < length x2" by (cases x2) auto
  then show "((tl x2, x2a), line, s) \<in> measure (\<lambda>(line, s). length line)"
    using le by simp
qed

declare process_data_dir.simps [simp del]

text \<open>Appending the characters of a string one by one.\<close>

fun append_characters_to_data :: "string \<Rightarrow> asm_state \<Rightarrow> asm_state option" where
  "append_characters_to_data [] s = Some s"
| "append_characters_to_data (ch # rest) s =
     (case append_character_to_data ch s of
        None \<Rightarrow> None
      | Some s1 \<Rightarrow> append_characters_to_data rest s1)"

definition process_string_dir :: "string \<Rightarrow> asm_state \<Rightarrow> (bool \<times> asm_state) option" where
  "process_string_dir line s =
     (let line1 = trim_end_whitespaces line;
          param = copy_next_token line1 []
      in if \<not> is_string param then Some (False, print_error STRING_NOT_STR s)
         else
           (case append_characters_to_data (butlast (tl param)) s of
              None \<Rightarrow> None
            | Some s1 \<Rightarrow>
                (case append_character_to_data NUL s1 of
                   None \<Rightarrow> None
                 | Some s2 \<Rightarrow> Some (True, s2))))"

definition process_entry_dir :: "string \<Rightarrow> asm_state \<Rightarrow> (bool \<times> asm_state) option" where
  "process_entry_dir line s =
     (let param = copy_next_token line SEPS_BLANK in
      if is_empty param then Some (False, print_error ENTRY_MISSING_SYMBOL s)
      else
        let (ok, msgs) = is_symbol param False; s1 = print_errors msgs s in
        if \<not> ok then Some (False, s1)
        else if \<not> is_empty_ptr (extract_remaining_seq line SEPS_BLANK)
        then Some (False, print_error ENTRY_EXTRANEOUS_TEXT s1)
        else Some (True, s1))"

definition process_extern_dir :: "string \<Rightarrow> asm_state \<Rightarrow> (bool \<times> asm_state) option" where
  "process_extern_dir line s =
     (let param = copy_next_token line SEPS_BLANK in
      if is_empty param then Some (False, print_error EXTERN_MISSING_SYMBOL s)
      else
        let (ok, msgs) = is_symbol param False; s1 = print_errors msgs s in
        if \<not> ok then Some (False, s1)
        else if \<not> is_empty_ptr (extract_remaining_seq line SEPS_BLANK)
        then Some (False, print_error EXTERN_EXTRANEOUS_TEXT s1)
        else
          (case add_symbol_to_list param DEFAULT_ADDR True s1 of
             (None, s2) \<Rightarrow> Some (False, s2)
           | (Some new_symbol, s2) \<Rightarrow> Some (True, s2)))"

fun process_directive ::
    "directive \<Rightarrow> string \<Rightarrow> asm_state \<Rightarrow> (bool \<times> asm_state) option" where
  "process_directive dir_type line s =
     (if is_empty line then Some (False, print_error DIR_MISSING_PARAMS s)
      else case dir_type of
             DATA \<Rightarrow> process_data_dir line s
           | STRING \<Rightarrow> process_string_dir line s
           | ENTRY \<Rightarrow> process_entry_dir line s
           | EXTERN \<Rightarrow> process_extern_dir line s
           | NONE_DIR \<Rightarrow> Some (False, s))"


subsection \<open>\<^verbatim>\<open>first_pass.c\<close>: lines and the pass\<close>

text \<open>
  The block \<^verbatim>\<open>if (is_symbol_exists) { delete_symbol(&symbol_table, current_symbol->name);
  is_symbol_exists = FALSE; }\<close> that \<^verbatim>\<open>parse_line\<close> repeats on every error path.
  \<open>current_symbol\<close> is \<open>None\<close> when \<^verbatim>\<open>is_symbol_exists\<close> is false.
\<close>

definition drop_label :: "nat option \<Rightarrow> asm_state \<Rightarrow> asm_state" where
  "drop_label current_symbol s =
     (case current_symbol of
        None \<Rightarrow> s
      | Some i \<Rightarrow>
          s\<lparr>symbol_table := delete_symbol (symbol_table s) (name (symbol_table s ! i))\<rparr>)"

text \<open>\<^verbatim>\<open>current_symbol->type = t; current_symbol->address = a;\<close> when a label exists.\<close>

definition set_label ::
    "nat option \<Rightarrow> statement_type \<Rightarrow> int \<Rightarrow> asm_state \<Rightarrow> asm_state" where
  "set_label current_symbol t a s =
     (case current_symbol of
        None \<Rightarrow> s
      | Some i \<Rightarrow>
          s\<lparr>symbol_table :=
               (symbol_table s)[i := (symbol_table s ! i)
                                       \<lparr>sym_type := Some t, address := word_of_int a\<rparr>]\<rparr>)"

text \<open>
  The second half of \<^verbatim>\<open>parse_line\<close>, from the test \<^verbatim>\<open>find_operation(current_token)\<close> on.
  \<^verbatim>\<open>line\<close> holds \<^verbatim>\<open>current_token\<close> here, so \<^verbatim>\<open>extract_remaining_seq\<close> does not give
  \<^verbatim>\<open>NULL\<close>; the code reads \<^verbatim>\<open>line[0]\<close> without a test.
\<close>

definition parse_statement ::
    "nat option \<Rightarrow> string \<Rightarrow> string \<Rightarrow> asm_state \<Rightarrow> (bool \<times> asm_state) option" where
  "parse_statement current_symbol current_token line s =
     (if find_operation current_token \<noteq> NONE_OP then
        (let op_val = find_operation current_token;
             s1 = set_label current_symbol INSTRUCTION (ic s) s
         in case extract_remaining_seq line SEPS_COMMA of
              None \<Rightarrow> None
            | Some l \<Rightarrow>
                if peek l = CHR '','' then
                  Some (False, print_error ILLEGAL_COMMA (drop_label current_symbol s1))
                else if has_consecutive_commas l then
                  Some (False, print_error CONSECUTIVE_COMMAS (drop_label current_symbol s1))
                else
                  (case process_operation op_val l s1 of
                     None \<Rightarrow> None
                   | Some (ok, s2) \<Rightarrow>
                       if \<not> ok then Some (False, drop_label current_symbol s2)
                       else Some (True, s2)))
      else if find_directive current_token \<noteq> NONE_DIR then
        (let dir_val = find_directive current_token;
             (current_symbol1, s1) =
               (if dir_val = EXTERN \<or> dir_val = ENTRY
                then (None, drop_label current_symbol s)
                else (current_symbol, set_label current_symbol DIRECTIVE (dc s) s))
         in case extract_remaining_seq line SEPS_COMMA of
              None \<Rightarrow> None
            | Some l \<Rightarrow>
                if peek l = CHR '','' then
                  Some (False, print_error ILLEGAL_COMMA (drop_label current_symbol1 s1))
                else if has_consecutive_commas l then
                  Some (False, print_error CONSECUTIVE_COMMAS (drop_label current_symbol1 s1))
                else
                  (case process_directive dir_val l s1 of
                     None \<Rightarrow> None
                   | Some (ok, s2) \<Rightarrow>
                       if \<not> ok then Some (False, drop_label current_symbol1 s2)
                       else Some (True, s2)))
      else Some (False, print_error UNDEFINED_OP_DIR (drop_label current_symbol s)))"

definition parse_line :: "string \<Rightarrow> asm_state \<Rightarrow> (bool \<times> asm_state) option" where
  "parse_line line s =
     (let current_token = copy_next_token line SEPS_LABEL;
          (ok, msgs) = is_symbol current_token True;
          s1 = print_errors msgs s
      in if ok then
           (let current_token1 = butlast current_token in
            case add_symbol_to_list current_token1 DEFAULT_ADDR False s1 of
              (None, s2) \<Rightarrow> Some (False, s2)
            | (Some current_symbol, s2) \<Rightarrow>
                (let line1 = extract_remaining_seq line [CHR '':''] in
                 if is_empty_ptr line1 then
                   Some (False, print_error SYMBOL_ONLY (drop_label (Some current_symbol) s2))
                 else
                   (case line1 of
                      None \<Rightarrow> None
                    | Some l1 \<Rightarrow>
                        parse_statement (Some current_symbol)
                          (copy_next_token l1 SEPS_COMMA) l1 s2)))
         else parse_statement None current_token line s1)"

text \<open>
  \<^verbatim>\<open>fgets(line, n, fd)\<close> on the rest of a file: at most \<open>n - 1\<close> characters, ending after a
  newline. The result is the characters read and the rest of the file.
\<close>

fun fgets :: "nat \<Rightarrow> string \<Rightarrow> string \<times> string" where
  "fgets 0 file = ([], file)"
| "fgets (Suc k) [] = ([], [])"
| "fgets (Suc k) (c # cs) =
     (if c = NEWLINE then ([c], cs)
      else let (l, r) = fgets k cs in (c # l, r))"

text \<open>
  The buffer that \<^verbatim>\<open>fgets\<close> filled, read as a C string: it ends at the first NUL.
\<close>

definition c_str :: "string \<Rightarrow> string" where
  "c_str buffer = takeWhile (\<lambda>c. c \<noteq> NUL) buffer"

text \<open>
  The lines that the loop \<^verbatim>\<open>while (fgets(line, MAX_LINE_LEN, fd))\<close> sees, in order.
\<close>

function read_lines :: "string \<Rightarrow> string list" where
  "read_lines file =
     (if file = [] then []
      else let (l, r) = fgets (MAX_LINE_LEN - 1) file in c_str l # read_lines r)"
  by pat_completeness auto
termination
proof (relation "measure length")
  show "wf (measure length)" by simp
next
  fix inp :: string and x xa y
  assume ne: "inp \<noteq> []" and x: "x = fgets (MAX_LINE_LEN - 1) inp" and xy: "(xa, y) = x"
  have len: "\<And>k (f :: string) l r. fgets k f = (l, r) \<Longrightarrow> length l + length r = length f"
  proof -
    fix k and f :: string and l r
    show "fgets k f = (l, r) \<Longrightarrow> length l + length r = length f"
      by (induction k f arbitrary: l r rule: fgets.induct)
         (auto split: if_splits prod.splits)
  qed
  have pos: "\<And>k (f :: string) l r. fgets (Suc k) f = (l, r) \<Longrightarrow> f \<noteq> [] \<Longrightarrow> l \<noteq> []"
  proof -
    fix k and f :: string and l r
    show "fgets (Suc k) f = (l, r) \<Longrightarrow> f \<noteq> [] \<Longrightarrow> l \<noteq> []"
      by (cases f) (auto split: if_splits prod.splits)
  qed
  have eq: "fgets (Suc 79) inp = (xa, y)"
    using x xy by (simp add: MAX_LINE_LEN_def)
  have "length xa + length y = length inp" using eq by (rule len)
  moreover have "xa \<noteq> []" using eq ne by (rule pos)
  ultimately have "length y < length inp" by (cases xa) auto
  then show "(y, inp) \<in> measure length" by simp
qed

declare read_lines.simps [simp del]

text \<open>The body of the loop of \<^verbatim>\<open>first_process\<close> for one line.\<close>

definition first_process_line ::
    "string \<Rightarrow> bool \<times> asm_state \<Rightarrow> (bool \<times> asm_state) option" where
  "first_process_line line ws =
     (let (was_error, s) = ws;
          line1 = trim_whitespaces line
      in if \<not> should_ignore line1 then
           (case parse_line line1 s of
              None \<Rightarrow> None
            | Some (ok, s1) \<Rightarrow>
                Some (if \<not> ok then True else was_error, s1\<lparr>line_num := line_num s1 + 1\<rparr>))
         else Some (was_error, s\<lparr>line_num := line_num s + 1\<rparr>))"

fun first_process_lines ::
    "string list \<Rightarrow> bool \<times> asm_state \<Rightarrow> (bool \<times> asm_state) option" where
  "first_process_lines [] ws = Some ws"
| "first_process_lines (line # rest) ws =
     (case first_process_line line ws of
        None \<Rightarrow> None
      | Some ws1 \<Rightarrow> first_process_lines rest ws1)"

text \<open>The two sweeps at the end of \<^verbatim>\<open>first_process\<close>.\<close>

definition finalize_addresses :: "asm_state \<Rightarrow> asm_state" where
  "finalize_addresses s =
     (let s1 = s\<lparr>symbol_table :=
                  update_symbol_addr (symbol_table s) (word_of_int MEM_START) INSTRUCTION\<rparr>
      in s1\<lparr>symbol_table :=
              update_symbol_addr (symbol_table s1) (word_of_int (ic s1 + MEM_START))
                DIRECTIVE\<rparr>)"

text \<open>
  \<^verbatim>\<open>first_process\<close> on the contents of the expanded source file, from the state \<open>s0\<close> the
  globals are in: the assignments at its start, the loop over the lines and the two sweeps.
  The first component of the result is \<^verbatim>\<open>was_error\<close>.
\<close>

definition first_process_init :: "asm_state \<Rightarrow> asm_state" where
  "first_process_init s0 =
     s0\<lparr>ic := 0, dc := 0, line_num := 1, symbol_table := [],
        is_entry_exists := False, is_extern_exists := False\<rparr>"

definition first_process :: "string \<Rightarrow> asm_state \<Rightarrow> (bool \<times> asm_state) option" where
  "first_process file s0 =
     (case first_process_lines (read_lines file) (False, first_process_init s0) of
        None \<Rightarrow> None
      | Some (was_error, s1) \<Rightarrow> Some (was_error, finalize_addresses s1))"


subsection \<open>\<^verbatim>\<open>second_pass.c\<close>\<close>

text \<open>
  \<^verbatim>\<open>determine_operand\<close> writes through its two pointers; the second argument is the pair of
  values before the call. The case for \<^verbatim>\<open>RTS_OP\<close> and \<^verbatim>\<open>STOP_OP\<close> falls through into
  \<^verbatim>\<open>default\<close>, which does nothing.
\<close>

fun determine_operand :: "opcode \<Rightarrow> bool \<times> bool \<Rightarrow> bool \<times> bool" where
  "determine_operand MOV_OP hs = (True, True)"
| "determine_operand CMP_OP hs = (True, True)"
| "determine_operand ADD_OP hs = (True, True)"
| "determine_operand SUB_OP hs = (True, True)"
| "determine_operand LEA_OP hs = (True, True)"
| "determine_operand NOT_OP hs = (False, True)"
| "determine_operand CLR_OP hs = (False, True)"
| "determine_operand INC_OP hs = (False, True)"
| "determine_operand DEC_OP hs = (False, True)"
| "determine_operand JMP_OP hs = (False, True)"
| "determine_operand BNE_OP hs = (False, True)"
| "determine_operand RED_OP hs = (False, True)"
| "determine_operand PRN_OP hs = (False, True)"
| "determine_operand JSR_OP hs = (False, True)"
| "determine_operand RTS_OP hs = (False, False)"
| "determine_operand STOP_OP hs = (False, False)"
| "determine_operand NONE_OP hs = hs"

text \<open>
  \<^verbatim>\<open>encode_reg\<close> reads the string from its third character on; a string shorter than two
  characters has no such position.
\<close>

definition encode_reg :: "string \<Rightarrow> bool \<Rightarrow> 32 word option" where
  "encode_reg reg is_dest =
     (if length reg < SKIP_TO_NUM_REG then None
      else
        let register_num = atoi (drop SKIP_TO_NUM_REG reg);
            word :: 32 word =
              (if \<not> is_dest then word_of_int (push_bit BITS_IN_REG register_num)
               else word_of_int register_num)
        in Some (encode_are word ABSOLUTE))"

definition encode_symbol :: "string \<Rightarrow> asm_state \<Rightarrow> (bool \<times> asm_state) option" where
  "encode_symbol symbol_name s =
     (if is_existing_symbol (symbol_table s) symbol_name then
        (let word = get_symbol_addr (symbol_table s) symbol_name;
             (word1, s1) =
               (if is_extern_symbol (symbol_table s) symbol_name
                then (encode_are word EXTERNAL,
                      s\<lparr>ext_table := add_ext_to_list (ext_table s) symbol_name
                                        (word_of_int (ic s + MEM_START))\<rparr>)
                else (encode_are word RELOCATABLE, s))
         in case append_word_to_code word1 s1 of
              None \<Rightarrow> None
            | Some s2 \<Rightarrow> Some (True, s2))
      else Some (False, print_error SYMBOL_NOT_FOUND (s\<lparr>ic := ic s + 1\<rparr>)))"

definition encode_operand_to_code ::
    "string \<Rightarrow> addressing_mode \<Rightarrow> bool \<Rightarrow> asm_state \<Rightarrow> (bool \<times> asm_state) option" where
  "encode_operand_to_code operand addr_mode is_dest s =
     (if addr_mode = IMMEDIATE_ADDR then
        (case append_word_to_code (encode_are (word_of_int (atoi operand)) ABSOLUTE) s of
           None \<Rightarrow> None
         | Some s1 \<Rightarrow> Some (True, s1))
      else if addr_mode = DIRECT_ADDR then encode_symbol operand s
      else if addr_mode = REG_DIRECT_ADDR then
        (case encode_reg operand is_dest of
           None \<Rightarrow> None
         | Some word \<Rightarrow>
             (case append_word_to_code word s of
                None \<Rightarrow> None
              | Some s1 \<Rightarrow> Some (True, s1)))
      else Some (False, s))"

definition encode_additional_words ::
    "string \<Rightarrow> string \<Rightarrow> bool \<Rightarrow> bool \<Rightarrow> addressing_mode \<Rightarrow> addressing_mode \<Rightarrow> asm_state
       \<Rightarrow> (bool \<times> asm_state) option" where
  "encode_additional_words src dest has_src has_dest src_mode dest_mode s =
     (if has_src \<and> has_dest \<and> src_mode = REG_DIRECT_ADDR \<and> dest_mode = REG_DIRECT_ADDR then
        (case (encode_reg src False, encode_reg dest True) of
           (Some w1, Some w2) \<Rightarrow>
             (case append_word_to_code (w1 OR w2) s of
                None \<Rightarrow> None
              | Some s1 \<Rightarrow> Some (True, s1))
         | _ \<Rightarrow> None)
      else if has_dest then
        (if has_src then
           (case encode_operand_to_code src src_mode False s of
              None \<Rightarrow> None
            | Some (src_success, s1) \<Rightarrow>
                (case encode_operand_to_code dest dest_mode True s1 of
                   None \<Rightarrow> None
                 | Some (dest_success, s2) \<Rightarrow> Some (dest_success \<and> src_success, s2)))
         else encode_operand_to_code dest dest_mode True s)
      else Some (True, s))"

text \<open>Reading \<^verbatim>\<open>code[ic]\<close>.\<close>

definition read_code :: "asm_state \<Rightarrow> 32 word option" where
  "read_code s = (if 0 \<le> ic s \<and> ic s < MEM_SIZE then Some (code s (nat (ic s))) else None)"

text \<open>
  The operands of \<^verbatim>\<open>process_operation_second_pass\<close>. With two operands the code steps
  over one character of the rest (\<^verbatim>\<open>line++\<close>) without a test: on \<^verbatim>\<open>NULL\<close> and on the
  empty string the pointer leaves the string. With \<^verbatim>\<open>line\<close> being \<^verbatim>\<open>NULL\<close>,
  \<^verbatim>\<open>copy_next_token\<close> writes nothing and the operand read later is not initialised. A buffer
  that is not used is given as the empty string.
\<close>

definition second_pass_operands ::
    "bool \<Rightarrow> bool \<Rightarrow> string option \<Rightarrow> (string \<times> string) option" where
  "second_pass_operands has_src has_dest line =
     (if has_dest then
        (case line of
           None \<Rightarrow> None
         | Some l \<Rightarrow>
             if has_src then
               (case extract_remaining_seq l SEPS_COMMA of
                  None \<Rightarrow> None
                | Some l1 \<Rightarrow>
                    if l1 = [] then None
                    else Some (copy_next_token l SEPS_COMMA, copy_next_token (tl l1) SEPS_BLANK))
             else Some ([], copy_next_token l SEPS_BLANK))
      else Some ([], []))"

definition process_operation_second_pass ::
    "opcode \<Rightarrow> string option \<Rightarrow> asm_state \<Rightarrow> (bool \<times> asm_state) option" where
  "process_operation_second_pass op_type line s =
     (let (has_src, has_dest) = determine_operand op_type (False, False) in
      case (if has_src \<or> has_dest then read_code s else Some 0) of
        None \<Rightarrow> None
      | Some w \<Rightarrow>
          let src_addr_mode =
                (if has_src then uint (extract_bits w SRC_MODE_START_POS SRC_MODE_END_POS)
                 else NONE_ADDR);
              dest_addr_mode =
                (if has_dest then uint (extract_bits w DEST_MODE_START_POS DEST_MODE_END_POS)
                 else NONE_ADDR)
          in (case second_pass_operands has_src has_dest line of
                None \<Rightarrow> None
              | Some (src, dest) \<Rightarrow>
                  encode_additional_words src dest has_src has_dest src_addr_mode
                    dest_addr_mode (s\<lparr>ic := ic s + 1\<rparr>)))"

text \<open>\<^verbatim>\<open>extract_remaining_seq\<close> applied to a pointer that may be \<^verbatim>\<open>NULL\<close>.\<close>

fun extract_remaining_seq_ptr :: "string option \<Rightarrow> string \<Rightarrow> string option" where
  "extract_remaining_seq_ptr None seps = None"
| "extract_remaining_seq_ptr (Some seq) seps = extract_remaining_seq seq seps"

text \<open>
  \<^verbatim>\<open>copy_next_token(dest, src, seps)\<close> where \<^verbatim>\<open>src\<close> may be \<^verbatim>\<open>NULL\<close>: the first argument
  is the old contents of \<^verbatim>\<open>dest\<close>, which stay when \<^verbatim>\<open>src\<close> is \<^verbatim>\<open>NULL\<close>.
\<close>

fun copy_next_token_ptr :: "string \<Rightarrow> string option \<Rightarrow> string \<Rightarrow> string" where
  "copy_next_token_ptr dest None seps = dest"
| "copy_next_token_ptr dest (Some src) seps = copy_next_token src seps"

definition parse_line_second_pass ::
    "string \<Rightarrow> asm_state \<Rightarrow> (bool \<times> asm_state) option" where
  "parse_line_second_pass line s =
     (let current_token = copy_next_token line SEPS_LABEL;
          (ok, msgs) = is_symbol current_token True;
          s1 = print_errors msgs s;
          line1 = (if ok then extract_remaining_seq line [CHR '':''] else Some line);
          current_token1 =
            (if ok then copy_next_token_ptr current_token line1 SEPS_COMMA else current_token)
      in if find_operation current_token1 \<noteq> NONE_OP then
           process_operation_second_pass (find_operation current_token1)
             (extract_remaining_seq_ptr line1 SEPS_COMMA) s1
         else if find_directive current_token1 \<noteq> NONE_DIR then
           (if find_directive current_token1 = ENTRY then
              Some (make_entry
                      (copy_next_token_ptr current_token1
                         (extract_remaining_seq_ptr line1 SEPS_COMMA) SEPS_BLANK) s1)
            else Some (True, s1))
         else Some (True, s1))"

definition second_process_line ::
    "string \<Rightarrow> bool \<times> asm_state \<Rightarrow> (bool \<times> asm_state) option" where
  "second_process_line line ws =
     (let (was_error, s) = ws;
          line1 = trim_whitespaces line
      in if \<not> should_ignore line1 then
           (case parse_line_second_pass line1 s of
              None \<Rightarrow> None
            | Some (ok, s1) \<Rightarrow>
                Some (if \<not> ok then True else was_error, s1\<lparr>line_num := line_num s1 + 1\<rparr>))
         else Some (was_error, s\<lparr>line_num := line_num s + 1\<rparr>))"

fun second_process_lines ::
    "string list \<Rightarrow> bool \<times> asm_state \<Rightarrow> (bool \<times> asm_state) option" where
  "second_process_lines [] ws = Some ws"
| "second_process_lines (line # rest) ws =
     (case second_process_line line ws of
        None \<Rightarrow> None
      | Some ws1 \<Rightarrow> second_process_lines rest ws1)"

definition second_process :: "string \<Rightarrow> asm_state \<Rightarrow> (bool \<times> asm_state) option" where
  "second_process file s0 =
     second_process_lines (read_lines file)
       (False, s0\<lparr>ic := 0, line_num := 1, ext_table := []\<rparr>)"

subsection \<open>\<^verbatim>\<open>pre_asm.c\<close>\<close>

text \<open>\<^verbatim>\<open>struct mcr\<close>: a macro and the lines of its body.\<close>

record mcr =
  mcr_name :: string
  mcr_lines :: "string list"

text \<open>
  The local state of \<^verbatim>\<open>pre_process\<close>. \<^verbatim>\<open>is_inside_macro\<close> and \<^verbatim>\<open>current_macro\<close> are assigned
  together and the flag is true exactly when the pointer is not \<^verbatim>\<open>NULL\<close>; the embedding
  keeps the pointer. \<open>extended_src\<close> is what has been written to the expanded file.
\<close>

record pre_state =
  macro_table :: "mcr list"
  current_macro :: "nat option"
  extended_src :: string

definition is_inside_macro :: "pre_state \<Rightarrow> bool" where
  "is_inside_macro ps = (current_macro ps \<noteq> None)"

definition create_macro :: "string \<Rightarrow> mcr" where
  "create_macro name' = \<lparr>mcr_name = name', mcr_lines = []\<rparr>"

definition add_macro_to_list :: "mcr list \<Rightarrow> string \<Rightarrow> nat \<times> mcr list" where
  "add_macro_to_list head name' = (length head, head @ [create_macro name'])"

definition add_line_to_macro :: "mcr list \<Rightarrow> nat \<Rightarrow> string \<Rightarrow> mcr list" where
  "add_line_to_macro table macro line =
     table[macro := (table ! macro)\<lparr>mcr_lines := mcr_lines (table ! macro) @ [line]\<rparr>]"

fun find_macro :: "mcr list \<Rightarrow> string \<Rightarrow> nat option" where
  "find_macro [] name' = None"
| "find_macro (current_macro' # rest) name' =
     (if mcr_name current_macro' = name' then Some 0
      else map_option Suc (find_macro rest name'))"

text \<open>What \<^verbatim>\<open>expand_macro\<close> writes; it is called for a macro that exists.\<close>

definition expand_macro :: "mcr list \<Rightarrow> string \<Rightarrow> string" where
  "expand_macro table macro_name =
     (case find_macro table macro_name of
        None \<Rightarrow> []
      | Some i \<Rightarrow> concat (mcr_lines (table ! i)))"

definition is_macro :: "string \<Rightarrow> bool \<times> err list" where
  "is_macro token =
     (if length token > MAX_MCR_LEN then (False, [MCR_TOO_LONG])
      else if is_register token then (False, [MCR_CANNOT_BE_REG])
      else if find_operation token \<noteq> NONE_OP then (False, [MCR_CANNOT_BE_OP])
      else if find_directive token \<noteq> NONE_DIR then (False, [MCR_CANNOT_BE_DIR])
      else (True, []))"

text \<open>
  \<^verbatim>\<open>strtok(str, delims)\<close>: the token, or \<open>None\<close> for \<^verbatim>\<open>NULL\<close>, and the position the next
  call \<^verbatim>\<open>strtok(NULL, delims)\<close> continues from.
\<close>

definition strtok :: "string \<Rightarrow> string \<Rightarrow> string option \<times> string" where
  "strtok str delims =
     (let s1 = dropWhile (\<lambda>c. c \<in> set delims) str in
      if s1 = [] then (None, [])
      else (Some (takeWhile (\<lambda>c. c \<notin> set delims) s1),
            tl (dropWhile (\<lambda>c. c \<notin> set delims) s1)))"

text \<open>
  The body of the loop of \<^verbatim>\<open>pre_process\<close> for one line, without the final
  \<^verbatim>\<open>line_num++\<close>. The first component of the result is false when the loop is left by
  \<^verbatim>\<open>break\<close> with \<^verbatim>\<open>success = FALSE\<close>.
\<close>

definition pre_process_line ::
    "string \<Rightarrow> pre_state \<times> asm_state \<Rightarrow> bool \<times> pre_state \<times> asm_state" where
  "pre_process_line line pss =
     (let (ps, s) = pss;
          trimmed_line = trim_whitespaces line
      in if take 4 trimmed_line = ''mcro'' then
           (case strtok (drop 4 trimmed_line) '' '' of
              (None, rest) \<Rightarrow> (False, ps, print_error MCR_MISSING_NAME s)
            | (Some macro_name, rest) \<Rightarrow>
                (case strtok rest '' '' of
                   (Some token, rest1) \<Rightarrow> (False, ps, print_error MCR_MCRO_EXTRANEOUS_TEXT s)
                 | (None, rest1) \<Rightarrow>
                     let (ok, msgs) = is_macro macro_name; s1 = print_errors msgs s in
                     if ok then
                       (let (new_macro, table) = add_macro_to_list (macro_table ps) macro_name
                        in (True, ps\<lparr>macro_table := table, current_macro := Some new_macro\<rparr>,
                            s1))
                     else (False, ps, s1)))
         else if is_inside_macro ps \<and> take 7 trimmed_line = ''endmcro'' then
           (case strtok (drop 7 trimmed_line) '' '' of
              (Some token, rest) \<Rightarrow> (False, ps, print_error MCR_ENDMCRO_EXTRANEOUS_TEXT s)
            | (None, rest) \<Rightarrow> (True, ps\<lparr>current_macro := None\<rparr>, s))
         else
           (case current_macro ps of
              Some m \<Rightarrow> (True, ps\<lparr>macro_table := add_line_to_macro (macro_table ps) m line\<rparr>, s)
            | None \<Rightarrow>
                if find_macro (macro_table ps) trimmed_line \<noteq> None then
                  (True,
                   ps\<lparr>extended_src :=
                        extended_src ps @ expand_macro (macro_table ps) trimmed_line\<rparr>, s)
                else (True, ps\<lparr>extended_src := extended_src ps @ line\<rparr>, s)))"




subsection \<open>Views of a line used in the statements\<close>

text \<open>
  The label handling shared by \<^verbatim>\<open>parse_line\<close> and \<^verbatim>\<open>parse_line_second_pass\<close>: the token
  that is tested against the operation and directive names, and the line it was taken from
  (after the label, when the first token is a label).
\<close>

definition statement_of_line :: "string \<Rightarrow> string \<times> string option" where
  "statement_of_line line =
     (let current_token = copy_next_token line SEPS_LABEL in
      if fst (is_symbol current_token True) then
        (let line1 = extract_remaining_seq line [CHR '':'']
         in (copy_next_token_ptr current_token line1 SEPS_COMMA, line1))
      else (current_token, Some line))"

text \<open>
  The operation of a line and the operands \<^verbatim>\<open>process_operation\<close> finds for it:
  the opcode, \<^verbatim>\<open>has_first_operand\<close>, \<^verbatim>\<open>has_second_operand\<close>, \<^verbatim>\<open>first_operand\<close> and
  \<^verbatim>\<open>second_operand\<close>.
\<close>

definition operation_of_line ::
    "string \<Rightarrow> (opcode \<times> bool \<times> bool \<times> string \<times> string) option" where
  "operation_of_line line =
     (let (current_token, line1) = statement_of_line line in
      if find_operation current_token = NONE_OP then None
      else
        (case extract_remaining_seq_ptr line1 SEPS_COMMA of
           None \<Rightarrow> None
         | Some l \<Rightarrow>
             (case get_operands (find_operation current_token) l of
                Some (Inr (has_first, has_second, first_operand, second_operand)) \<Rightarrow>
                  Some (find_operation current_token, has_first, has_second,
                        first_operand, second_operand)
              | _ \<Rightarrow> None)))"

text \<open>
  The layout the specification gives for the first word of an instruction:
  \<open>(src_mode << 9) | (opcode << 5) | (dest_mode << 2)\<close>.
\<close>

definition opcode_word :: "int \<Rightarrow> int \<Rightarrow> int \<Rightarrow> 32 word" where
  "opcode_word src_mode opc dest_mode =
     push_bit 9 (word_of_int src_mode) OR push_bit 5 (word_of_int opc)
       OR push_bit 2 (word_of_int dest_mode)"

text \<open>The addressing mode \<^verbatim>\<open>process_operation\<close> holds for an operand.\<close>

definition operand_mode :: "bool \<Rightarrow> string \<Rightarrow> addressing_mode" where
  "operand_mode has_operand operand =
     (if has_operand then fst (detect_addr_mode operand) else NONE_ADDR)"

text \<open>The node \<^verbatim>\<open>parse_line\<close> adds for a label.\<close>

definition new_label :: "string \<Rightarrow> symbol" where
  "new_label n =
     \<lparr>name = n, address = DEFAULT_ADDR, sym_type = None, is_ext = False, is_ent = False\<rparr>"

subsection \<open>Vocabulary and rules taken from the specification\<close>

text \<open>The closed vocabularies of the source language.\<close>

definition register_names :: "string list" where
  "register_names = [''@r0'', ''@r1'', ''@r2'', ''@r3'', ''@r4'', ''@r5'', ''@r6'', ''@r7'']"

definition operation_names :: "string list" where
  "operation_names = [''mov'', ''cmp'', ''add'', ''sub'', ''not'', ''clr'', ''lea'', ''inc'',
                      ''dec'', ''jmp'', ''bne'', ''red'', ''prn'', ''jsr'', ''rts'', ''stop'']"

definition directive_names :: "string list" where
  "directive_names = [''.data'', ''.string'', ''.entry'', ''.extern'']"

text \<open>
  The number syntax in the words of the specification: an optional leading sign, at least
  one digit, all remaining characters digits.
\<close>

definition number_syntax :: "string \<Rightarrow> bool" where
  "number_syntax s =
     (let body = (if peek s = CHR ''+'' \<or> peek s = CHR ''-'' then tl s else s)
      in body \<noteq> [] \<and> list_all isdigit body)"

text \<open>
  The rule for macro names in the words of the specification: at most 31 characters, a
  letter first, letters and digits only, and not a register, operation or directive name.
\<close>

definition macro_name_rule_claimed :: "string \<Rightarrow> bool" where
  "macro_name_rule_claimed n =
     (length n \<le> 31 \<and> isalpha (peek n) \<and> list_all isalnum n
      \<and> n \<notin> set register_names \<and> n \<notin> set operation_names \<and> n \<notin> set directive_names)"

text \<open>The same rule without the two conditions on the characters.\<close>

definition macro_name_rule :: "string \<Rightarrow> bool" where
  "macro_name_rule n =
     (length n \<le> 31
      \<and> n \<notin> set register_names \<and> n \<notin> set operation_names \<and> n \<notin> set directive_names)"

text \<open>
  The name that \<^verbatim>\<open>pre_process\<close> extracts from a macro definition line: the line starts with
  \<^verbatim>\<open>mcro\<close>, a first call of \<^verbatim>\<open>strtok\<close> gives the name and a second one gives \<^verbatim>\<open>NULL\<close>.
\<close>

definition mcro_line_name :: "string \<Rightarrow> string option" where
  "mcro_line_name line =
     (let trimmed_line = trim_whitespaces line in
      if take 4 trimmed_line = ''mcro'' then
        (case strtok (drop 4 trimmed_line) '' '' of
           (None, rest) \<Rightarrow> None
         | (Some macro_name, rest) \<Rightarrow>
             (case strtok rest '' '' of
                (Some token, rest1) \<Rightarrow> None
              | (None, rest1) \<Rightarrow> Some macro_name))
      else None)"

text \<open>
  A \<^verbatim>\<open>mcro\<close> line in the words of the specification: a line whose first token is \<^verbatim>\<open>mcro\<close>,
  the first token being the characters from the first one that is not white space up to the
  next white space. It is compared below with the test that \<^verbatim>\<open>pre_process\<close> makes.
\<close>

definition first_token :: "string \<Rightarrow> string" where
  "first_token line = takeWhile (\<lambda>c. \<not> isspace c) (dropWhile isspace line)"

definition mcro_line_claimed :: "string \<Rightarrow> bool" where
  "mcro_line_claimed line = (first_token line = ''mcro'')"

text \<open>The messages of \<^verbatim>\<open>is_macro\<close>.\<close>

definition macro_errors :: "err list" where
  "macro_errors = [MCR_TOO_LONG, MCR_CANNOT_BE_REG, MCR_CANNOT_BE_OP, MCR_CANNOT_BE_DIR]"

text \<open>The local state of \<^verbatim>\<open>pre_process\<close> before the first line.\<close>

definition init_pre_state :: pre_state where
  "init_pre_state = \<lparr>macro_table = [], current_macro = None, extended_src = []\<rparr>"

text \<open>The test \<^verbatim>\<open>strncmp(trimmed_line, "mcro", 4) == 0\<close> of \<^verbatim>\<open>pre_process\<close>.\<close>

definition is_mcro_line :: "string \<Rightarrow> bool" where
  "is_mcro_line line = (take 4 (trim_whitespaces line) = ''mcro'')"

text \<open>
  The convention of the symbol table for external symbols: their address is 0
  (\<^verbatim>\<open>process_extern_dir\<close> adds them with \<^verbatim>\<open>DEFAULT_ADDR\<close> and \<^verbatim>\<open>update_symbol_addr\<close> skips
  them).
\<close>

definition externals_at_zero :: "symbol list \<Rightarrow> bool" where
  "externals_at_zero table = list_all (\<lambda>sym. is_ext sym \<longrightarrow> address sym = 0) table"

text \<open>Inputs of the examples.\<close>

definition example_table :: "symbol list" where
  "example_table =
     [\<lparr>name = ''EXT'', address = 0, sym_type = Some DIRECTIVE, is_ext = True, is_ent = False\<rparr>,
      \<lparr>name = ''LOOP'', address = 103, sym_type = Some INSTRUCTION, is_ext = False,
         is_ent = False\<rparr>]"




subsection \<open>Definitions used to state and prove the properties of pass 1\<close>

text \<open>
  The directive of a line and the text of its parameters, as \<^verbatim>\<open>parse_line\<close> passes them to
  \<^verbatim>\<open>process_directive\<close>.
\<close>

definition directive_of_line :: "string \<Rightarrow> (directive \<times> string) option" where
  "directive_of_line line =
     (let (current_token, line1) = statement_of_line line in
      if find_operation current_token \<noteq> NONE_OP
         \<or> find_directive current_token = NONE_DIR then None
      else
        (case extract_remaining_seq_ptr line1 SEPS_COMMA of
           None \<Rightarrow> None
         | Some l \<Rightarrow> Some (find_directive current_token, l)))"

text \<open>
  The parameters that the loop of \<^verbatim>\<open>process_data_dir\<close> converts and appends, in order: the
  same loop, collecting the parameter where the code calls \<^verbatim>\<open>append_number_to_data\<close> and
  ending where the code returns.
\<close>

function data_items :: "string \<Rightarrow> string list" where
  "data_items line =
     (if is_empty line then []
      else
        let param = copy_next_token line SEPS_COMMA in
        if \<not> is_number param then []
        else
          (case extract_remaining_seq line SEPS_COMMA of
             None \<Rightarrow> []
           | Some l \<Rightarrow>
               if \<not> is_empty l \<and> peek l \<noteq> CHR '','' then []
               else if is_empty (tl l) \<and> peek l = CHR '','' then []
               else param # (if \<not> is_empty l then data_items (tl l) else [])))"
  by pat_completeness auto
termination
proof (relation "measure length")
  show "wf (measure length)" by simp
next
  fix line :: string and x x2
  assume ne: "\<not> is_empty x2" and ex: "extract_remaining_seq line SEPS_COMMA = Some x2"
  have dw: "\<And>P (xs :: string). length (dropWhile P xs) \<le> length xs"
    by (simp add: length_dropWhile_le)
  define d where "d = dropWhile (\<lambda>c. \<not> is_separator c SEPS_COMMA) (skip_whitespaces line)"
  have "length d \<le> length line"
    unfolding d_def skip_whitespaces_def using dw le_trans by blast
  moreover have "length (tl d) \<le> length d" by simp
  moreover have "x2 = skip_whitespaces (if peek d = CHR '':'' then tl d else d)"
    using ex unfolding extract_remaining_seq_def d_def
    by (simp add: Let_def split: if_splits)
  ultimately have le: "length x2 \<le> length line"
    unfolding skip_whitespaces_def
    by (metis (full_types) dw le_trans)
  have "x2 \<noteq> []" using ne by (auto simp: is_empty_def skip_whitespaces_def)
  then have "length (tl x2) < length x2" by (cases x2) auto
  then show "(tl x2, line) \<in> measure length" using le by simp
qed

declare data_items.simps [simp del]

text \<open>
  The characters that \<^verbatim>\<open>process_string_dir\<close> appends for a valid string: the characters
  between the quotes and the terminator.
\<close>

definition string_items :: "string \<Rightarrow> string" where
  "string_items line =
     (let param = copy_next_token (trim_end_whitespaces line) [] in butlast (tl param) @ [NUL])"

text \<open>
  Appending a list of words to the data segment, one \<^verbatim>\<open>data[dc++] = w\<close> after the other.
\<close>

fun append_words_to_data :: "32 word list \<Rightarrow> asm_state \<Rightarrow> asm_state option" where
  "append_words_to_data [] s = Some s"
| "append_words_to_data (w # ws) s =
     (if 0 \<le> dc s \<and> dc s < MEM_SIZE
      then append_words_to_data ws (s\<lparr>data := (data s)(nat (dc s) := w), dc := dc s + 1\<rparr>)
      else None)"

text \<open>
  The words \<open>ws\<close> were appended to the data segment between the states \<open>s\<close> and \<open>s'\<close>:
  \<open>dc\<close> grew by their number and they are stored from the old \<open>dc\<close> on.
\<close>

definition stored_words :: "asm_state \<Rightarrow> asm_state \<Rightarrow> 32 word list \<Rightarrow> bool" where
  "stored_words s s' ws =
     (dc s' = dc s + int (length ws)
      \<and> list_all (\<lambda>i. data s' (nat (dc s) + i) = ws ! i) [0 ..< length ws])"

text \<open>
  Two states agree on everything but the symbol table, the flag \<open>is_extern_exists\<close> and the
  messages.
\<close>

definition same_core :: "asm_state \<Rightarrow> asm_state \<Rightarrow> bool" where
  "same_core s s' =
     (code s' = code s \<and> data s' = data s \<and> ic s' = ic s \<and> dc s' = dc s
      \<and> ext_table s' = ext_table s \<and> line_num s' = line_num s
      \<and> is_entry_exists s' = is_entry_exists s)"

text \<open>
  Two states agree on everything but the messages.
\<close>

definition only_errors_differ :: "asm_state \<Rightarrow> asm_state \<Rightarrow> bool" where
  "only_errors_differ s s' =
     (same_core s s' \<and> symbol_table s' = symbol_table s
      \<and> is_extern_exists s' = is_extern_exists s)"

text \<open>
  The node \<^verbatim>\<open>process_extern_dir\<close> adds.
\<close>

definition extern_symbol :: "string \<Rightarrow> symbol" where
  "extern_symbol n = \<lparr>name = n, address = DEFAULT_ADDR, sym_type = Some DIRECTIVE, is_ext = True, is_ent = False\<rparr>"

text \<open>
  A label after \<^verbatim>\<open>parse_line\<close> has set its type and address.
\<close>

definition placed_label :: "string \<Rightarrow> statement_type \<Rightarrow> int \<Rightarrow> symbol" where
  "placed_label n t a =
     \<lparr>name = n, address = word_of_int a, sym_type = Some t, is_ext = False, is_ent = False\<rparr>"

text \<open>
  The symbol table while a line is parsed: \<open>tbl\<close> is the table before the line; with a
  label (\<open>current_symbol\<close> is not \<open>None\<close>) the table is \<open>tbl\<close> followed by the node of the
  label, whose name \<open>n\<close> does not occur in \<open>tbl\<close>.
\<close>

definition label_state :: "nat option \<Rightarrow> symbol list \<Rightarrow> string \<Rightarrow> asm_state \<Rightarrow> bool" where
  "label_state h tbl n s =
     (case h of
        None \<Rightarrow> symbol_table s = tbl
      | Some i \<Rightarrow> i = length tbl \<and> find_symbol tbl n = None
                  \<and> (\<exists>x. symbol_table s = tbl @ [x] \<and> name x = n \<and> \<not> is_ext x \<and> \<not> is_ent x))"

text \<open>
  The table after an accepted line: the table before it, followed by the label if there is one.
\<close>

definition table_with_label ::
    "nat option \<Rightarrow> symbol list \<Rightarrow> string \<Rightarrow> statement_type \<Rightarrow> int \<Rightarrow> symbol list" where
  "table_with_label h tbl n t a =
     (case h of None \<Rightarrow> tbl | Some i \<Rightarrow> tbl @ [placed_label n t a])"

text \<open>
  The state after a line that failed outside \<^verbatim>\<open>process_data_dir\<close>: the table is again \<open>tbl\<close>.
\<close>

definition rolled_back :: "symbol list \<Rightarrow> asm_state \<Rightarrow> asm_state \<Rightarrow> bool" where
  "rolled_back tbl s s' =
     (same_core s s' \<and> symbol_table s' = tbl \<and> is_extern_exists s' = is_extern_exists s)"

text \<open>
  The invariant of a symbol during pass 1, for the counters \<open>i\<close> and \<open>d\<close>: an external
  symbol has address 0, an instruction symbol an address below \<open>i\<close>, a data symbol an address
  below \<open>d\<close>.
\<close>

definition symbol_ok :: "int \<Rightarrow> int \<Rightarrow> symbol \<Rightarrow> bool" where
  "symbol_ok i d smb =
     (if is_ext smb then address smb = 0
      else (sym_type smb = Some INSTRUCTION \<and> uint (address smb) < i)
           \<or> (sym_type smb = Some DIRECTIVE \<and> uint (address smb) < d))"

text \<open>
  The invariant of the state during pass 1.
\<close>

definition pass1_inv :: "asm_state \<Rightarrow> bool" where
  "pass1_inv s =
     (0 \<le> ic s \<and> ic s \<le> MEM_SIZE + 2 \<and> 0 \<le> dc s \<and> dc s \<le> MEM_SIZE
      \<and> list_all (symbol_ok (ic s) (dc s)) (symbol_table s))"

text \<open>
  The finalisation of one symbol in the words of the specification: 100 is added to the
  address of a non-external instruction symbol, the final \<open>ic\<close> plus 100 to the address of a
  non-external data symbol, and an external symbol is left as it is.
\<close>

definition relocate :: "int \<Rightarrow> symbol \<Rightarrow> symbol" where
  "relocate final_ic smb =
     (if is_ext smb then smb
      else if sym_type smb = Some INSTRUCTION then smb\<lparr>address := address smb + 100\<rparr>
      else if sym_type smb = Some DIRECTIVE
      then smb\<lparr>address := address smb + word_of_int (final_ic + 100)\<rparr>
      else smb)"

text \<open>
  An expanded source with an instruction label, a data label, an external symbol and a second
  instruction label.
\<close>

definition example_source :: string where
  "example_source = ''MAIN: mov @r3, @r4'' @ [NEWLINE] @ ''X: .data 5, -1'' @ [NEWLINE]
      @ '' .extern E'' @ [NEWLINE] @ ''END: stop'' @ [NEWLINE]"

section \<open>Properties\<close>

subsection \<open>Definitions unfolded when a concrete input is evaluated\<close>

lemmas lex_defs = copy_next_token_def extract_remaining_seq_def skip_whitespaces_def is_empty_def
  is_separator_def SEPS_LABEL_def SEPS_COMMA_def SEPS_BLANK_def TAB_def NUL_def NEWLINE_def
  isspace_def isdigit_def isalpha_def isalnum_def is_symbol_def is_register_def find_operation_def
  find_directive_def MAX_SYMBOL_LEN_def REG_LEN_def MIN_REG_INDEX_def MAX_REG_INDEX_def
  is_number_def should_ignore_def trim_whitespaces_def trim_end_whitespaces_def

lemmas mode_defs = IMMEDIATE_ADDR_def DIRECT_ADDR_def REG_DIRECT_ADDR_def NONE_ADDR_def
  mode_1_3_5_def mode_3_5_def

lemmas pass1_defs = parse_line_def parse_statement_def process_operation_def get_operands_def
  count_commas_def has_consecutive_commas_def detect_addr_mode_def add_symbol_to_list_def
  create_symbol_def is_existing_symbol_def set_label_def drop_label_def print_errors_def
  print_error_def append_word_to_code_def encode_first_op_word_def encode_are_def
  get_additional_word_count_def OP_MAX_NUM_COMMAS_def DEFAULT_ADDR_def MEM_SIZE_def
  OPCODE_BITS_def ADDR_MODE_BITS_def ARE_BITS_def

subsection \<open>Fields that the helper functions leave alone\<close>

lemma init_state_fields [simp]:
  "code init_state = (\<lambda>_. 0)" "data init_state = (\<lambda>_. 0)" "ic init_state = 0"
  "dc init_state = 0" "symbol_table init_state = []" "ext_table init_state = []"
  "errors init_state = []" "line_num init_state = 0"
  by (simp_all add: init_state_def)

lemma print_error_fields [simp]:
  "code (print_error e s) = code s" "data (print_error e s) = data s"
  "ic (print_error e s) = ic s" "dc (print_error e s) = dc s"
  "symbol_table (print_error e s) = symbol_table s" "ext_table (print_error e s) = ext_table s"
  "line_num (print_error e s) = line_num s"
  "is_entry_exists (print_error e s) = is_entry_exists s"
  "is_extern_exists (print_error e s) = is_extern_exists s"
  by (simp_all add: print_error_def)

lemma print_errors_fields [simp]:
  "code (print_errors es s) = code s" "data (print_errors es s) = data s"
  "ic (print_errors es s) = ic s" "dc (print_errors es s) = dc s"
  "symbol_table (print_errors es s) = symbol_table s" "ext_table (print_errors es s) = ext_table s"
  "line_num (print_errors es s) = line_num s"
  "is_entry_exists (print_errors es s) = is_entry_exists s"
  "is_extern_exists (print_errors es s) = is_extern_exists s"
  by (simp_all add: print_errors_def)

lemma set_label_fields [simp]:
  "code (set_label h t a s) = code s" "data (set_label h t a s) = data s"
  "ic (set_label h t a s) = ic s" "dc (set_label h t a s) = dc s"
  "ext_table (set_label h t a s) = ext_table s"
  "line_num (set_label h t a s) = line_num s" "errors (set_label h t a s) = errors s"
  "is_entry_exists (set_label h t a s) = is_entry_exists s"
  "is_extern_exists (set_label h t a s) = is_extern_exists s"
  by (simp_all add: set_label_def split: option.splits)

lemma drop_label_fields [simp]:
  "code (drop_label h s) = code s" "data (drop_label h s) = data s"
  "ic (drop_label h s) = ic s" "dc (drop_label h s) = dc s"
  "ext_table (drop_label h s) = ext_table s"
  "line_num (drop_label h s) = line_num s" "errors (drop_label h s) = errors s"
  "is_entry_exists (drop_label h s) = is_entry_exists s"
  "is_extern_exists (drop_label h s) = is_extern_exists s"
  by (simp_all add: drop_label_def split: option.splits)

lemma add_symbol_to_list_fields:
  assumes "add_symbol_to_list n a e s = (r, s1)"
  shows "code s1 = code s" "data s1 = data s" "ic s1 = ic s" "dc s1 = dc s"
    "ext_table s1 = ext_table s" "line_num s1 = line_num s"
    "is_entry_exists s1 = is_entry_exists s"
  using assms
  by (auto simp: add_symbol_to_list_def create_symbol_def Let_def split: if_splits prod.splits)

lemma process_operation_accepted:
  assumes acc: "process_operation op line s = Some (True, s')"
      and ops: "get_operands op line = Some (Inr (h1, h2, o1, o2))"
  shows "s' = (print_errors (snd (if h1 then detect_addr_mode o1 else (NONE_ADDR, []))
                   @ snd (if h2 then detect_addr_mode o2 else (NONE_ADDR, []))) s)
              \<lparr>code := (code s)(nat (ic s) :=
                   encode_first_op_word op h1 h2 (operand_mode h1 o1) (operand_mode h2 o2)),
               ic := ic s + 1 + get_additional_word_count h1 h2 (operand_mode h1 o1) (operand_mode h2 o2)\<rparr>"
    and "0 \<le> ic s" and "ic s < MEM_SIZE"
    and "is_valid_operand_count op h1 h2"
    and "is_valid_mode_combination op (operand_mode h1 o1) (operand_mode h2 o2)"
    and "h1 \<longrightarrow> operand_mode h1 o1 \<noteq> NONE_ADDR"
    and "h2 \<longrightarrow> operand_mode h2 o2 \<noteq> NONE_ADDR"
  using acc ops
  by (auto simp: process_operation_def operand_mode_def append_word_to_code_def Let_def
           split: if_splits prod.splits option.splits)

lemma process_operation_operands:
  assumes acc: "process_operation op line s = Some (True, s')"
  shows "\<exists>h1 h2 o1 o2. get_operands op line = Some (Inr (h1, h2, o1, o2))"
  using acc
  by (auto simp: process_operation_def split: option.splits sum.splits)

lemma parse_statement_operation:
  assumes "parse_statement h tok l s = Some (True, s')" and "find_operation tok \<noteq> NONE_OP"
  shows "\<exists>operands. extract_remaining_seq l SEPS_COMMA = Some operands
           \<and> process_operation (find_operation tok) operands (set_label h INSTRUCTION (ic s) s)
               = Some (True, s')"
  using assms
  by (auto simp: parse_statement_def Let_def split: option.splits if_splits)


lemma add_label:
  "add_symbol_to_list n DEFAULT_ADDR False s =
     (if is_existing_symbol (symbol_table s) n then (None, print_error SYMBOL_ALREADY_EXISTS s)
      else (Some (length (symbol_table s)), s\<lparr>symbol_table := symbol_table s @ [new_label n]\<rparr>))"
  by (simp add: add_symbol_to_list_def create_symbol_def new_label_def)

lemma parse_line_no_label:
  assumes "\<not> fst (is_symbol (copy_next_token line SEPS_LABEL) True)"
  shows "parse_line line s =
           parse_statement None (copy_next_token line SEPS_LABEL) line
             (print_errors (snd (is_symbol (copy_next_token line SEPS_LABEL) True)) s)"
  using assms
  by (cases "is_symbol (copy_next_token line SEPS_LABEL) True") (simp add: parse_line_def Let_def)

lemma parse_line_label:
  assumes "fst (is_symbol (copy_next_token line SEPS_LABEL) True)"
      and "parse_line line s = Some (True, s')"
  shows "\<not> is_existing_symbol (symbol_table s) (butlast (copy_next_token line SEPS_LABEL))"
    and "\<exists>l1. extract_remaining_seq line [CHR '':''] = Some l1 \<and> \<not> is_empty l1
           \<and> parse_statement (Some (length (symbol_table s))) (copy_next_token l1 SEPS_COMMA) l1
                ((print_errors (snd (is_symbol (copy_next_token line SEPS_LABEL) True)) s)
                   \<lparr>symbol_table := symbol_table s
                        @ [new_label (butlast (copy_next_token line SEPS_LABEL))]\<rparr>)
              = Some (True, s')"
  using assms
  by (cases "is_symbol (copy_next_token line SEPS_LABEL) True";
      auto simp: parse_line_def Let_def add_label split: option.splits if_splits)+

lemma parse_line_statement:
  assumes "parse_line line s = Some (True, s')"
  obtains h s1 tok l where "statement_of_line line = (tok, Some l)"
     and "parse_statement h tok l s1 = Some (True, s')"
     and "code s1 = code s" and "data s1 = data s" and "ic s1 = ic s" and "dc s1 = dc s"
     and "ext_table s1 = ext_table s"
proof (cases "fst (is_symbol (copy_next_token line SEPS_LABEL) True)")
  case False
  show ?thesis
  proof (rule that)
    show "statement_of_line line = (copy_next_token line SEPS_LABEL, Some line)"
      using False by (simp add: statement_of_line_def)
    show "parse_statement None (copy_next_token line SEPS_LABEL) line
             (print_errors (snd (is_symbol (copy_next_token line SEPS_LABEL) True)) s) = Some (True, s')"
      using parse_line_no_label [OF False] assms by simp
  qed simp_all
next
  case True
  from parse_line_label(2) [OF True assms] obtain l1 where
    l1: "extract_remaining_seq line [CHR '':''] = Some l1"
    and ps: "parse_statement (Some (length (symbol_table s))) (copy_next_token l1 SEPS_COMMA) l1
                ((print_errors (snd (is_symbol (copy_next_token line SEPS_LABEL) True)) s)
                   \<lparr>symbol_table := symbol_table s
                        @ [new_label (butlast (copy_next_token line SEPS_LABEL))]\<rparr>)
              = Some (True, s')" by blast
  show ?thesis
  proof (rule that)
    show "statement_of_line line = (copy_next_token l1 SEPS_COMMA, Some l1)"
      using True l1 by (simp add: statement_of_line_def)
    show "parse_statement (Some (length (symbol_table s))) (copy_next_token l1 SEPS_COMMA) l1
                ((print_errors (snd (is_symbol (copy_next_token line SEPS_LABEL) True)) s)
                   \<lparr>symbol_table := symbol_table s
                        @ [new_label (butlast (copy_next_token line SEPS_LABEL))]\<rparr>)
              = Some (True, s')" by (rule ps)
  qed simp_all
qed

lemma parse_line_operation:
  assumes acc: "parse_line line s = Some (True, s')"
      and ops: "operation_of_line line = Some (op, h1, h2, o1, o2)"
  obtains s1 operands where "process_operation op operands s1 = Some (True, s')"
     and "get_operands op operands = Some (Inr (h1, h2, o1, o2))"
     and "code s1 = code s" and "data s1 = data s" and "ic s1 = ic s" and "dc s1 = dc s"
     and "ext_table s1 = ext_table s"
proof -
  from acc obtain h s1 tok l where st: "statement_of_line line = (tok, Some l)"
     and ps: "parse_statement h tok l s1 = Some (True, s')"
     and eqs: "code s1 = code s" "data s1 = data s" "ic s1 = ic s" "dc s1 = dc s"
       "ext_table s1 = ext_table s"
    by (rule parse_line_statement)
  from ops st have isop: "find_operation tok \<noteq> NONE_OP" and opeq: "op = find_operation tok"
    by (auto simp: operation_of_line_def split: if_splits option.splits sum.splits)
  from parse_statement_operation [OF ps isop] obtain operands where
    ex: "extract_remaining_seq l SEPS_COMMA = Some operands"
    and po: "process_operation (find_operation tok) operands (set_label h INSTRUCTION (ic s1) s1)
               = Some (True, s')" by blast
  from ops st ex have go: "get_operands op operands = Some (Inr (h1, h2, o1, o2))"
    by (auto simp: operation_of_line_def split: if_splits option.splits sum.splits)
  show ?thesis
    by (rule that [OF po [folded opeq] go]) (simp_all add: eqs)
qed

lemma parse_line_operation_exists:
  assumes acc: "parse_line line s = Some (True, s')"
      and isop: "find_operation (fst (statement_of_line line)) \<noteq> NONE_OP"
  shows "\<exists>op h1 h2 o1 o2. operation_of_line line = Some (op, h1, h2, o1, o2)"
proof -
  from acc obtain h s1 tok l where st: "statement_of_line line = (tok, Some l)"
     and ps: "parse_statement h tok l s1 = Some (True, s')"
    by (rule parse_line_statement)
  from isop st have isop': "find_operation tok \<noteq> NONE_OP" by simp
  from parse_statement_operation [OF ps isop'] obtain operands where
    ex: "extract_remaining_seq l SEPS_COMMA = Some operands"
    and po: "process_operation (find_operation tok) operands (set_label h INSTRUCTION (ic s1) s1)
               = Some (True, s')" by blast
  from process_operation_operands [OF po] obtain h1 h2 o1 o2 where
    "get_operands (find_operation tok) operands = Some (Inr (h1, h2, o1, o2))" by blast
  then show ?thesis using st ex isop'
    by (simp add: operation_of_line_def)
qed



subsection \<open>The first word of an instruction\<close>

lemma detect_addr_mode_range:
  "fst (detect_addr_mode x) = NONE_ADDR \<or> mode_1_3_5 (fst (detect_addr_mode x))"
  by (simp add: detect_addr_mode_def mode_1_3_5_def Let_def split: prod.splits)

lemma encode_two_operands:
  assumes "op \<noteq> NONE_OP" "mode_1_3_5 m1" "mode_1_3_5 m2"
  shows "encode_first_op_word op True True m1 m2 = opcode_word m1 (opcode_val op) m2"
  using assms
  by (cases op)
     (auto simp: encode_first_op_word_def opcode_word_def encode_are_def mode_defs
                 OPCODE_BITS_def ADDR_MODE_BITS_def ARE_BITS_def)

lemma encode_one_operand:
  assumes "op \<noteq> NONE_OP" "mode_1_3_5 m1"
  shows "encode_first_op_word op True False m1 m2 = opcode_word 0 (opcode_val op) m1"
  using assms
  by (cases op)
     (auto simp: encode_first_op_word_def opcode_word_def encode_are_def mode_defs
                 OPCODE_BITS_def ADDR_MODE_BITS_def ARE_BITS_def)

lemma encode_no_operand:
  assumes "op \<noteq> NONE_OP"
  shows "encode_first_op_word op False h2 m1 m2 = opcode_word 0 (opcode_val op) 0"
  using assms
  by (cases op)
     (auto simp: encode_first_op_word_def opcode_word_def encode_are_def
                 OPCODE_BITS_def ADDR_MODE_BITS_def ARE_BITS_def)

lemma opcode_word_fields:
  assumes "op \<noteq> NONE_OP" "m1 = 0 \<or> mode_1_3_5 m1" "m2 = 0 \<or> mode_1_3_5 m2"
  shows "extract_bits (opcode_word m1 (opcode_val op) m2) 0 1 = are_val ABSOLUTE"
    and "extract_bits (opcode_word m1 (opcode_val op) m2) DEST_MODE_START_POS DEST_MODE_END_POS
           = word_of_int m2"
    and "extract_bits (opcode_word m1 (opcode_val op) m2) 5 8 = word_of_int (opcode_val op)"
    and "extract_bits (opcode_word m1 (opcode_val op) m2) SRC_MODE_START_POS SRC_MODE_END_POS
           = word_of_int m1"
  using assms
  by (cases op;
      auto simp: extract_bits_def opcode_word_def mode_defs SRC_MODE_START_POS_def
                 SRC_MODE_END_POS_def DEST_MODE_START_POS_def DEST_MODE_END_POS_def)+

lemma valid_operand_count_cases:
  assumes "is_valid_operand_count op h1 h2"
  shows "op \<noteq> NONE_OP" and "h2 \<longrightarrow> h1"
  using assms by (cases op; auto)+

text \<open>
  C1. For every instruction line that pass 1 accepts, the word stored at the old \<open>ic\<close> is
  \<open>(src_mode << 9) | (opcode << 5) | (dest_mode << 2)\<close>: read with \<^verbatim>\<open>extract_bits\<close>, bits
  9 to 11 hold the source mode, bits 5 to 8 the opcode, bits 2 to 4 the destination mode,
  and bits 0 and 1 (ARE) are \<open>ABSOLUTE\<close>. With two operands the source mode is the mode of the
  first operand and the destination mode that of the second; with one operand the operand's
  mode is the destination mode and the source field is zero; with none both are zero. The
  modes stored are 1, 3 or 5.
\<close>

theorem opcode_word_layout:
  assumes acc: "parse_line line s = Some (True, s')"
      and ops: "operation_of_line line
                  = Some (op, has_first, has_second, first_operand, second_operand)"
  shows "let w = code s' (nat (ic s));
             src_mode = (if has_first \<and> has_second then fst (detect_addr_mode first_operand)
                         else 0);
             dest_mode = (if has_first \<and> has_second then fst (detect_addr_mode second_operand)
                          else if has_first then fst (detect_addr_mode first_operand)
                          else 0)
         in w = opcode_word src_mode (opcode_val op) dest_mode
            \<and> extract_bits w SRC_MODE_START_POS SRC_MODE_END_POS = word_of_int src_mode
            \<and> extract_bits w 5 8 = word_of_int (opcode_val op)
            \<and> extract_bits w DEST_MODE_START_POS DEST_MODE_END_POS = word_of_int dest_mode
            \<and> extract_bits w 0 1 = are_val ABSOLUTE
            \<and> (has_first \<and> has_second \<longrightarrow> mode_1_3_5 src_mode)
            \<and> (has_first \<longrightarrow> mode_1_3_5 dest_mode)
            \<and> (has_second \<longrightarrow> has_first)"
proof -
  from acc ops obtain s1 operands where
    po: "process_operation op operands s1 = Some (True, s')"
    and go: "get_operands op operands
               = Some (Inr (has_first, has_second, first_operand, second_operand))"
    and ic1: "ic s1 = ic s"
    by (rule parse_line_operation)
  note facts = process_operation_accepted [OF po go]
  have cnt: "op \<noteq> NONE_OP" "has_second \<longrightarrow> has_first"
    using valid_operand_count_cases [OF facts(4)] by simp_all
  have m1: "has_first \<longrightarrow> mode_1_3_5 (fst (detect_addr_mode first_operand))"
    using facts(6) detect_addr_mode_range [of first_operand] by (auto simp: operand_mode_def)
  have m2: "has_second \<longrightarrow> mode_1_3_5 (fst (detect_addr_mode second_operand))"
    using facts(7) detect_addr_mode_range [of second_operand] by (auto simp: operand_mode_def)
  have w: "code s' (nat (ic s))
             = encode_first_op_word op has_first has_second
                 (operand_mode has_first first_operand) (operand_mode has_second second_operand)"
    by (subst facts(1)) (simp add: ic1)
  show ?thesis
  proof (cases has_first)
    case False
    then have "\<not> has_second" using cnt by simp
    with False show ?thesis
      using w cnt(1) opcode_word_fields [OF cnt(1), of 0 0]
      by (simp add: encode_no_operand Let_def)
  next
    case True
    note hf = this
    show ?thesis
    proof (cases has_second)
      case False
      with hf m1 show ?thesis
        using w opcode_word_fields [OF cnt(1), of 0 "fst (detect_addr_mode first_operand)"]
        by (simp add: encode_one_operand [OF cnt(1)] operand_mode_def Let_def)
    next
      case True
      with hf m1 m2 show ?thesis
        using w opcode_word_fields [OF cnt(1), of "fst (detect_addr_mode first_operand)"
                                       "fst (detect_addr_mode second_operand)"]
        by (simp add: encode_two_operands [OF cnt(1)] operand_mode_def Let_def)
    qed
  qed
qed

lemma example_mov_operation:
  "operation_of_line ''MAIN: mov @r3, @r4'' = Some (MOV_OP, True, True, ''@r3'', ''@r4'')"
  by (simp add: operation_of_line_def statement_of_line_def lex_defs get_operands_def
                count_commas_def OP_MAX_NUM_COMMAS_def)

lemma example_mov_run:
  "parse_line ''MAIN: mov @r3, @r4'' init_state =
     Some (True, init_state\<lparr>code := (\<lambda>_. 0)(0 := 2580), ic := 2,
        symbol_table := [\<lparr>name = ''MAIN'', address = 0, sym_type = Some INSTRUCTION,
                          is_ext = False, is_ent = False\<rparr>]\<rparr>)"
  by (simp add: lex_defs pass1_defs mode_defs init_state_def Let_def)

theorem opcode_word_layout_witness:
  "parse_line ''MAIN: mov @r3, @r4'' init_state \<noteq> None
   \<and> operation_of_line ''MAIN: mov @r3, @r4'' = Some (MOV_OP, True, True, ''@r3'', ''@r4'')
   \<and> code (snd (the (parse_line ''MAIN: mov @r3, @r4'' init_state))) 0 = opcode_word 5 0 5
   \<and> opcode_word 5 0 5 = 2580"
  using opcode_word_layout [OF example_mov_run example_mov_operation]
  by (simp add: example_mov_run example_mov_operation opcode_word_def
                detect_addr_mode_def lex_defs mode_defs Let_def)

text \<open>
  C2. For every instruction line that pass 1 accepts, \<open>ic\<close> grows by one for the first word
  and by one more for each operand present, except that two operands which both have the
  register-direct mode share one word, so that \<open>ic\<close> grows by two.
\<close>

theorem ic_advance:
  assumes acc: "parse_line line s = Some (True, s')"
      and ops: "operation_of_line line
                  = Some (op, has_first, has_second, first_operand, second_operand)"
  shows "ic s' = ic s + 1
           + (if has_first \<and> has_second
                 \<and> fst (detect_addr_mode first_operand) = REG_DIRECT_ADDR
                 \<and> fst (detect_addr_mode second_operand) = REG_DIRECT_ADDR
              then 1
              else (if has_first then 1 else 0) + (if has_second then 1 else 0))"
proof -
  from acc ops obtain s1 operands where
    po: "process_operation op operands s1 = Some (True, s')"
    and go: "get_operands op operands
               = Some (Inr (has_first, has_second, first_operand, second_operand))"
    and ic1: "ic s1 = ic s"
    by (rule parse_line_operation)
  have "ic s' = ic s + 1 + get_additional_word_count has_first has_second
                  (operand_mode has_first first_operand) (operand_mode has_second second_operand)"
    by (subst process_operation_accepted(1) [OF po go]) (simp add: ic1)
  then show ?thesis
    by (auto simp: get_additional_word_count_def operand_mode_def Let_def)
qed

theorem ic_advance_witness:
  "parse_line ''MAIN: mov @r3, @r4'' init_state \<noteq> None
   \<and> operation_of_line ''MAIN: mov @r3, @r4'' = Some (MOV_OP, True, True, ''@r3'', ''@r4'')
   \<and> ic (snd (the (parse_line ''MAIN: mov @r3, @r4'' init_state))) = ic init_state + 2"
  using ic_advance [OF example_mov_run example_mov_operation]
  by (simp add: example_mov_run example_mov_operation
                detect_addr_mode_def lex_defs mode_defs Let_def)


subsection \<open>\<^verbatim>\<open>is_number\<close>\<close>

lemma isdigit_NUL [simp]: "\<not> isdigit NUL"
  by (simp add: isdigit_def NUL_def)

lemma is_number_nonempty: "s \<noteq> [] \<Longrightarrow> is_number s = number_syntax s"
  by (cases s; cases "tl s") (auto simp: is_number_def number_syntax_def Let_def)

text \<open>
  C8. \<^verbatim>\<open>is_number\<close> is claimed to accept exactly the strings with an optional sign,
  at least one digit and digits only after it. It does so for every string that is not
  empty (\<open>is_number_nonempty\<close>), but it also accepts the empty string, which has no digit:
  without a sign the function only runs the loop over the characters, and the loop finds
  nothing to reject.
\<close>

theorem is_number_empty_string: "is_number [] \<and> \<not> number_syntax []"
  by (simp add: is_number_def number_syntax_def NUL_def)


subsection \<open>Macro names\<close>

lemma find_operation_names: "find_operation n \<noteq> NONE_OP \<longleftrightarrow> n \<in> set operation_names"
  by (simp add: find_operation_def operation_names_def)

lemma find_directive_names: "find_directive n \<noteq> NONE_DIR \<longleftrightarrow> n \<in> set directive_names"
  by (simp add: find_directive_def directive_names_def)

lemma digit_0_7:
  assumes "isdigit c" and "int (of_char c) - 48 \<le> 7"
  shows "c \<in> set ''01234567''"
proof -
  from assms have "(of_char c :: nat) \<in> {48, 49, 50, 51, 52, 53, 54, 55}"
    by (auto simp: isdigit_def)
  then have "(of_char c :: nat) = of_char (CHR ''0'') \<or> (of_char c :: nat) = of_char (CHR ''1'')
      \<or> (of_char c :: nat) = of_char (CHR ''2'') \<or> (of_char c :: nat) = of_char (CHR ''3'')
      \<or> (of_char c :: nat) = of_char (CHR ''4'') \<or> (of_char c :: nat) = of_char (CHR ''5'')
      \<or> (of_char c :: nat) = of_char (CHR ''6'') \<or> (of_char c :: nat) = of_char (CHR ''7'')"
    by simp
  then have "c = CHR ''0'' \<or> c = CHR ''1'' \<or> c = CHR ''2'' \<or> c = CHR ''3''
      \<or> c = CHR ''4'' \<or> c = CHR ''5'' \<or> c = CHR ''6'' \<or> c = CHR ''7''"
    unfolding of_char_eq_iff .
  then show ?thesis by auto
qed

lemma is_register_names: "is_register n \<longleftrightarrow> n \<in> set register_names"
proof
  assume r: "is_register n"
  then obtain a b c where n: "n = [a, b, c]"
    by (cases n; cases "tl n"; cases "tl (tl n)"; cases "tl (tl (tl n))")
       (auto simp: is_register_def REG_LEN_def)
  from r n have "a = CHR ''@''" "b = CHR ''r''" "isdigit c" "int (of_char c) - 48 \<le> 7"
    by (auto simp: is_register_def MAX_REG_INDEX_def)
  then show "n \<in> set register_names"
    using digit_0_7 [of c] n by (auto simp: register_names_def)
next
  assume "n \<in> set register_names"
  then show "is_register n"
    by (auto simp: register_names_def is_register_def isdigit_def REG_LEN_def MIN_REG_INDEX_def MAX_REG_INDEX_def)
qed


lemma is_macro_fst:
  "fst (is_macro n) \<longleftrightarrow>
     length n \<le> MAX_MCR_LEN \<and> \<not> is_register n \<and> find_operation n = NONE_OP
     \<and> find_directive n = NONE_DIR"
  by (simp add: is_macro_def)

lemma is_macro_rule: "fst (is_macro n) \<longleftrightarrow> macro_name_rule n"
  unfolding is_macro_fst macro_name_rule_def MAX_MCR_LEN_def
  using is_register_names [of n] find_operation_names [of n] find_directive_names [of n]
  by blast

lemma is_macro_msgs:
  "fst (is_macro n) \<Longrightarrow> snd (is_macro n) = []"
  "\<not> fst (is_macro n) \<Longrightarrow> \<exists>e \<in> set macro_errors. snd (is_macro n) = [e]"
  by (auto simp: is_macro_def macro_errors_def split: if_splits)

text \<open>
  C7 as amended. For a macro definition line, the name extracted is accepted exactly when it
  has at most 31 characters and is not a register, operation or directive name. An accepted
  name starts a macro of that name; a rejected one leaves the loop with one of the four
  messages of \<^verbatim>\<open>is_macro\<close>. \<^verbatim>\<open>is_macro\<close> does not look at the characters of the name.
\<close>

theorem macro_name_accepted:
  assumes nm: "mcro_line_name line = Some n"
  shows "(fst (pre_process_line line (ps, s)) \<longleftrightarrow> macro_name_rule n)
       \<and> (macro_name_rule n \<longrightarrow>
            pre_process_line line (ps, s)
              = (True, ps\<lparr>macro_table := macro_table ps @ [create_macro n],
                          current_macro := Some (length (macro_table ps))\<rparr>, s))
       \<and> (\<not> macro_name_rule n \<longrightarrow>
            (\<exists>e \<in> set macro_errors.
               pre_process_line line (ps, s)
                 = (False, ps, s\<lparr>errors := errors s @ [(line_num s, e)]\<rparr>)))"
proof -
  from nm have t: "take 4 (trim_whitespaces line) = ''mcro''"
    by (auto simp: mcro_line_name_def Let_def split: if_splits)
  from nm t obtain rest rest1 where
    s1: "strtok (drop 4 (trim_whitespaces line)) '' '' = (Some n, rest)"
    and s2: "strtok rest '' '' = (None, rest1)"
    by (auto simp: mcro_line_name_def Let_def split: prod.splits option.splits)
  have step: "pre_process_line line (ps, s) =
      (if fst (is_macro n)
       then (True, ps\<lparr>macro_table := macro_table ps @ [create_macro n],
                      current_macro := Some (length (macro_table ps))\<rparr>,
             print_errors (snd (is_macro n)) s)
       else (False, ps, print_errors (snd (is_macro n)) s))"
    using t s1 s2
    by (cases "is_macro n") (simp add: pre_process_line_def Let_def add_macro_to_list_def)
  show ?thesis
  proof (cases "fst (is_macro n)")
    case True
    then show ?thesis
      using step is_macro_msgs(1) [OF True] is_macro_rule [of n]
      by (simp add: print_errors_def)
  next
    case False
    from is_macro_msgs(2) [OF False] obtain e where
      e: "e \<in> set macro_errors" "snd (is_macro n) = [e]" by blast
    then show ?thesis
      using step False is_macro_rule [of n]
      by (auto simp: print_errors_def)
  qed
qed

lemmas pre_defs = pre_process_line_def strtok_def is_macro_def add_macro_to_list_def
  create_macro_def MAX_MCR_LEN_def is_inside_macro_def

lemma mcro_1x_name: "mcro_line_name ''mcro 1x'' = Some ''1x''"
  by (simp add: mcro_line_name_def lex_defs strtok_def)

text \<open>
  C7 as claimed fails: the name \<open>1x\<close> does not start with a letter, and the line
  \<^verbatim>\<open>mcro 1x\<close> is accepted.
\<close>

theorem macro_name_counterexample:
  "mcro_line_name ''mcro 1x'' = Some ''1x''
   \<and> fst (pre_process_line ''mcro 1x'' (init_pre_state, init_state))
   \<and> \<not> isalpha (peek ''1x'')
   \<and> \<not> macro_name_rule_claimed ''1x''"
  by (simp add: mcro_line_name_def lex_defs pre_defs macro_name_rule_claimed_def)

theorem macro_name_accepted_witness:
  "mcro_line_name ''mcro 1x'' = Some ''1x''
   \<and> macro_name_rule ''1x''
   \<and> fst (pre_process_line ''mcro 1x'' (init_pre_state, init_state))"
  using macro_name_accepted [OF mcro_1x_name, of init_pre_state init_state]
  by (simp add: mcro_1x_name macro_name_rule_def register_names_def operation_names_def
                directive_names_def)


subsection \<open>Lines of the second pass that are neither operation nor directive\<close>

text \<open>
  C10. In the second pass a line that is not ignored and whose statement token (the first
  token after an optional label) is neither an operation nor a directive name is
  successful: \<^verbatim>\<open>parse_line_second_pass\<close> returns \<^verbatim>\<open>TRUE\<close>, and the code segment, \<open>ic\<close>, the
  symbol table and the table of external references stay as they are. The only effect is
  what \<^verbatim>\<open>is_symbol\<close> prints about the first token, which is never \<open>UNDEFINED_OP_DIR\<close>.
\<close>

theorem second_pass_unknown_statement:
  assumes "\<not> should_ignore line"
      and "find_operation (fst (statement_of_line line)) = NONE_OP"
      and "find_directive (fst (statement_of_line line)) = NONE_DIR"
  shows "let msgs = snd (is_symbol (copy_next_token line SEPS_LABEL) True);
             s' = s\<lparr>errors := errors s @ map (\<lambda>e. (line_num s, e)) msgs\<rparr>
         in parse_line_second_pass line s = Some (True, s')
            \<and> code s' = code s \<and> ic s' = ic s \<and> symbol_table s' = symbol_table s
            \<and> ext_table s' = ext_table s
            \<and> UNDEFINED_OP_DIR \<notin> set msgs"
proof -
  have "UNDEFINED_OP_DIR \<notin> set (snd (is_symbol (copy_next_token line SEPS_LABEL) True))"
    by (simp add: is_symbol_def Let_def)
  moreover have "parse_line_second_pass line s
      = Some (True, print_errors (snd (is_symbol (copy_next_token line SEPS_LABEL) True)) s)"
    using assms(2,3)
    by (cases "is_symbol (copy_next_token line SEPS_LABEL) True")
       (auto simp: parse_line_second_pass_def statement_of_line_def Let_def split: if_splits)
  ultimately show ?thesis
    by (simp add: print_errors_def Let_def)
qed

lemma example_foo_statement:
  "\<not> should_ignore ''X: foo 1'' \<and> fst (statement_of_line ''X: foo 1'') = ''foo''"
  by (simp add: statement_of_line_def lex_defs)

theorem second_pass_unknown_statement_witness:
  "\<not> should_ignore ''X: foo 1''
   \<and> find_operation (fst (statement_of_line ''X: foo 1'')) = NONE_OP
   \<and> find_directive (fst (statement_of_line ''X: foo 1'')) = NONE_DIR
   \<and> parse_line_second_pass ''X: foo 1'' init_state = Some (True, init_state)"
proof -
  have a: "\<not> should_ignore ''X: foo 1''" using example_foo_statement by simp
  have b: "find_operation (fst (statement_of_line ''X: foo 1'')) = NONE_OP"
    using example_foo_statement by (simp add: find_operation_def)
  have c: "find_directive (fst (statement_of_line ''X: foo 1'')) = NONE_DIR"
    using example_foo_statement by (simp add: find_directive_def)
  have m: "snd (is_symbol (copy_next_token ''X: foo 1'' SEPS_LABEL) True) = []"
    by (simp add: lex_defs)
  show ?thesis
    using second_pass_unknown_statement [OF a b c, of init_state] a b c
    by (simp add: m Let_def init_state_def)
qed


text \<open>
  \<^verbatim>\<open>parse_line\<close> of the first pass returns \<^verbatim>\<open>FALSE\<close> on every such line, so the second pass
  meets one only after a first pass that has failed.
\<close>

lemma first_pass_unknown_statement:
  assumes "find_operation (fst (statement_of_line line)) = NONE_OP"
      and "find_directive (fst (statement_of_line line)) = NONE_DIR"
  shows "\<exists>s'. parse_line line s = Some (False, s')"
proof (cases "fst (is_symbol (copy_next_token line SEPS_LABEL) True)")
  case False
  then have "fst (statement_of_line line) = copy_next_token line SEPS_LABEL"
    by (simp add: statement_of_line_def)
  then show ?thesis using assms parse_line_no_label [OF False, of s]
    by (simp add: parse_statement_def)
next
  case True
  show ?thesis
  proof (cases "extract_remaining_seq line [CHR '':'']")
    case None
    then show ?thesis using True
      by (cases "is_symbol (copy_next_token line SEPS_LABEL) True")
         (auto simp: parse_line_def Let_def add_label split: if_splits)
  next
    case (Some l1)
    then have "fst (statement_of_line line) = copy_next_token l1 SEPS_COMMA"
      using True by (simp add: statement_of_line_def)
    then show ?thesis using True Some assms
      by (cases "is_symbol (copy_next_token line SEPS_LABEL) True")
         (auto simp: parse_line_def Let_def add_label parse_statement_def split: if_splits)
  qed
qed



subsection \<open>Direct operands in the second pass\<close>

lemma find_symbol_Some:
  "find_symbol table n = Some i \<Longrightarrow> i < length table \<and> name (table ! i) = n"
  by (induction table arbitrary: i) (auto split: if_splits)

lemma find_symbol_None: "find_symbol table n = None \<longleftrightarrow> n \<notin> name ` set table"
  by (induction table) auto

text \<open>
  The symbol that \<^verbatim>\<open>find_symbol\<close> returns for a name is the first one of the table with that
  name; \<^verbatim>\<open>get_symbol_addr\<close> and \<^verbatim>\<open>is_extern_symbol\<close> read its \<open>address\<close> and \<open>is_ext\<close> fields.
\<close>

lemma find_symbol_first:
  "n \<notin> name ` set pre \<Longrightarrow> name smb = n \<Longrightarrow> find_symbol (pre @ smb # post) n = Some (length pre)"
  by (induction pre) auto

text \<open>
  C6. A direct operand of the second pass whose symbol \<open>smb\<close> is in the table (the first
  entry with the name of the operand), with the word fitting the code array and the
  external symbols of the table at address 0: if \<open>smb\<close> is external the word appended is 1
  (value 0, ARE \<open>EXTERNAL\<close>) and one record with the name and \<open>ic + 100\<close> of that word is
  appended to the table of external references; otherwise the word is the \<open>address\<close> field
  of \<open>smb\<close> shifted left by 2 with ARE \<open>RELOCATABLE\<close>, and the table of external references
  stays as it is.
\<close>

theorem direct_operand_word:
  assumes tab: "symbol_table s = pre @ smb # post"
      and first: "operand \<notin> name ` set pre"
      and nm: "name smb = operand"
      and inv: "externals_at_zero (symbol_table s)"
      and room: "0 \<le> ic s" "ic s < MEM_SIZE"
  shows "encode_operand_to_code operand DIRECT_ADDR is_dest s =
           (if is_ext smb
            then Some (True,
                   s\<lparr>ext_table := ext_table s
                         @ [\<lparr>ext_name = operand, ext_address = word_of_int (ic s + 100)\<rparr>],
                     code := (code s)(nat (ic s) := 1),
                     ic := ic s + 1\<rparr>)
            else Some (True,
                   s\<lparr>code := (code s)(nat (ic s) := push_bit 2 (address smb) OR 2),
                     ic := ic s + 1\<rparr>))
         \<and> is_existing_symbol (symbol_table s) operand
         \<and> encode_are 0 EXTERNAL = 1
         \<and> encode_are (address smb) RELOCATABLE = push_bit 2 (address smb) OR 2"
proof -
  have f: "find_symbol (symbol_table s) operand = Some (length pre)"
    unfolding tab using first nm by (rule find_symbol_first)
  have g: "symbol_table s ! length pre = smb" by (simp add: tab)
  have z: "is_ext smb \<Longrightarrow> address smb = 0"
    using inv by (simp add: tab externals_at_zero_def)
  show ?thesis
  proof (cases "is_ext smb")
    case True
    then show ?thesis using f g z room
      by (simp add: encode_operand_to_code_def encode_symbol_def append_word_to_code_def
                  is_existing_symbol_def get_symbol_addr_def is_extern_symbol_def
                  encode_are_def add_ext_to_list_def create_ext_def MEM_START_def ARE_BITS_def
                  mode_defs)
  next
    case False
    then show ?thesis using f g room
      by (simp add: encode_operand_to_code_def encode_symbol_def append_word_to_code_def
                  is_existing_symbol_def get_symbol_addr_def is_extern_symbol_def
                  encode_are_def ARE_BITS_def mode_defs)
  qed
qed

text \<open>
  Both branches on the example table: the external \<^verbatim>\<open>EXT\<close> gives the word 1 and the record
  \<^verbatim>\<open>(EXT, 101)\<close>; \<^verbatim>\<open>LOOP\<close> at address 103 gives the word \<open>103 * 4 + 2 = 414\<close>.
\<close>

theorem direct_operand_word_witness:
  "externals_at_zero example_table
   \<and> encode_operand_to_code ''EXT'' DIRECT_ADDR True
        (init_state\<lparr>symbol_table := example_table, ic := 1\<rparr>)
      = Some (True, init_state\<lparr>symbol_table := example_table,
                ext_table := [\<lparr>ext_name = ''EXT'', ext_address = 101\<rparr>],
                code := (\<lambda>_. 0)(1 := 1), ic := 2\<rparr>)
   \<and> encode_operand_to_code ''LOOP'' DIRECT_ADDR True
        (init_state\<lparr>symbol_table := example_table, ic := 1\<rparr>)
      = Some (True, init_state\<lparr>symbol_table := example_table,
                code := (\<lambda>_. 0)(1 := 414), ic := 2\<rparr>)"
proof -
  let ?s = "init_state\<lparr>symbol_table := example_table, ic := 1\<rparr>"
  let ?e = "\<lparr>name = ''EXT'', address = 0, sym_type = Some DIRECTIVE, is_ext = True, is_ent = False\<rparr>"
  let ?l = "\<lparr>name = ''LOOP'', address = 103, sym_type = Some INSTRUCTION, is_ext = False,
         is_ent = False\<rparr>"
  have b: "externals_at_zero (symbol_table ?s)"
    by (simp add: externals_at_zero_def example_table_def)
  have c: "0 \<le> ic ?s" "ic ?s < MEM_SIZE"
    by (simp_all add: MEM_SIZE_def)
  have t1: "symbol_table ?s = [] @ ?e # [?l]" by (simp add: example_table_def)
  have t2: "symbol_table ?s = [?e] @ ?l # []" by (simp add: example_table_def)
  have n1: "''EXT'' \<notin> name ` set []" "name ?e = ''EXT''" by simp_all
  have n2: "''LOOP'' \<notin> name ` set [?e]" "name ?l = ''LOOP''" by simp_all
  show ?thesis
    using direct_operand_word [OF t1 n1 b c, of True]
          direct_operand_word [OF t2 n2 b c, of True] b
    by (simp add: init_state_def)
qed

text \<open>
  The second pass keeps the external symbols at address 0: it never changes an address, and
  \<^verbatim>\<open>make_entry\<close> only sets \<open>is_ent\<close> of a symbol that is not external.
\<close>

lemma append_word_to_code_table:
  "append_word_to_code w s = Some s' \<Longrightarrow> symbol_table s' = symbol_table s"
  by (auto simp: append_word_to_code_def split: if_splits)

lemma encode_symbol_table:
  "encode_symbol n s = Some (ok, s') \<Longrightarrow> symbol_table s' = symbol_table s"
  by (auto simp: encode_symbol_def Let_def split: if_splits option.splits prod.splits
           dest!: append_word_to_code_table)

lemma encode_operand_to_code_table:
  "encode_operand_to_code operand m is_dest s = Some (ok, s') \<Longrightarrow> symbol_table s' = symbol_table s"
  by (auto simp: encode_operand_to_code_def split: if_splits option.splits
           dest!: append_word_to_code_table encode_symbol_table)

lemma encode_additional_words_table:
  "encode_additional_words src dest hsrc hdest ms md s = Some (ok, s') \<Longrightarrow>
     symbol_table s' = symbol_table s"
  by (auto simp: encode_additional_words_def split: if_splits option.splits prod.splits
           dest!: append_word_to_code_table encode_operand_to_code_table)

lemma process_operation_second_pass_table:
  "process_operation_second_pass op line s = Some (ok, s') \<Longrightarrow> symbol_table s' = symbol_table s"
  by (auto simp: process_operation_second_pass_def Let_def
           split: if_splits option.splits prod.splits
           dest!: encode_additional_words_table)

lemma make_entry_externals:
  assumes "externals_at_zero (symbol_table s)"
  shows "externals_at_zero (symbol_table (snd (make_entry n s)))"
proof (cases "find_symbol (symbol_table s) n")
  case None
  then show ?thesis using assms by (simp add: make_entry_def)
next
  case (Some i)
  then have i: "i < length (symbol_table s)" by (auto dest: find_symbol_Some)
  then have "symbol_table s ! i \<in> set (symbol_table s)" by simp
  then have "is_ext (symbol_table s ! i) \<longrightarrow> address (symbol_table s ! i) = 0"
    using assms by (auto simp: externals_at_zero_def list_all_iff)
  then show ?thesis using assms Some i
    by (auto simp: make_entry_def externals_at_zero_def list_all_iff
             dest!: set_update_subset_insert [THEN subsetD])
qed

lemma parse_line_second_pass_externals:
  assumes "externals_at_zero (symbol_table s)" "parse_line_second_pass line s = Some (ok, s')"
  shows "externals_at_zero (symbol_table s')"
proof -
  define s1 where "s1 = print_errors (snd (is_symbol (copy_next_token line SEPS_LABEL) True)) s"
  have e1: "externals_at_zero (symbol_table s1)" using assms(1) by (simp add: s1_def)
  from assms(2) have
    "(\<exists>op l. process_operation_second_pass op l s1 = Some (ok, s'))
     \<or> (\<exists>n. make_entry n s1 = (ok, s')) \<or> s' = s1"
    by (cases "is_symbol (copy_next_token line SEPS_LABEL) True")
       (auto simp: parse_line_second_pass_def Let_def s1_def split: if_splits)
  then show ?thesis
    using e1 make_entry_externals [OF e1]
    by (auto dest: process_operation_second_pass_table) (metis snd_conv)
qed

lemma second_process_lines_externals:
  "externals_at_zero (symbol_table s) \<Longrightarrow> second_process_lines ls (e, s) = Some (e', s') \<Longrightarrow>
     externals_at_zero (symbol_table s')"
proof (induction ls arbitrary: e s)
  case Nil
  then show ?case by simp
next
  case (Cons l ls)
  from Cons.prems(2) obtain e1 s1 where a: "second_process_line l (e, s) = Some (e1, s1)"
    and b: "second_process_lines ls (e1, s1) = Some (e', s')"
    by (auto split: option.splits)
  have "externals_at_zero (symbol_table s1)"
  proof (cases "should_ignore (trim_whitespaces l)")
    case True
    then show ?thesis using a Cons.prems(1) by (auto simp: second_process_line_def Let_def)
  next
    case False
    with a obtain ok s2 where p: "parse_line_second_pass (trim_whitespaces l) s = Some (ok, s2)"
      and s1: "s1 = s2\<lparr>line_num := line_num s2 + 1\<rparr>"
      by (auto simp: second_process_line_def Let_def split: option.splits)
    from parse_line_second_pass_externals [OF Cons.prems(1) p] show ?thesis using s1 by simp
  qed
  from Cons.IH [OF this b] show ?case .
qed



subsection \<open>Preprocessing a source without macro definitions\<close>






text \<open>
  \<^verbatim>\<open>pre_process\<close> takes a line for a macro definition when its first four characters after
  trimming are \<^verbatim>\<open>mcro\<close>. Every line whose first token is \<^verbatim>\<open>mcro\<close> passes this test, and so
  do lines whose first token only begins with these letters.
\<close>

lemma mcro_line_claimed_is_mcro_line:
  assumes "mcro_line_claimed line"
  shows "is_mcro_line line"
proof -
  define d where "d = dropWhile isspace line"
  define r where "r = dropWhile (\<lambda>c. \<not> isspace c) d"
  have "d = takeWhile (\<lambda>c. \<not> isspace c) d @ r" by (simp add: r_def)
  then have d: "d = ''mcro'' @ r"
    using assms by (simp add: mcro_line_claimed_def first_token_def d_def)
  have o: "\<not> isspace CHR ''o''" by (simp add: isspace_def)
  have k: "take 4 (rev (dropWhile isspace (rev r @ ''orcm''))) = ''mcro''"
    using o by (simp add: dropWhile_append)
  have "rev d = rev r @ ''orcm''" by (subst d) simp
  then show ?thesis
    using k by (simp add: is_mcro_line_def trim_whitespaces_def d_def)
qed






subsection \<open>What the parts of pass 1 do to the state\<close>

lemma only_errors_differ_refl [simp]: "only_errors_differ s s"
  by (simp add: only_errors_differ_def same_core_def)

lemma only_errors_differ_print [simp]:
  "only_errors_differ s (print_error e s)" "only_errors_differ s (print_errors es s)"
  "only_errors_differ s (print_error e (print_errors es s))"
  by (simp_all add: only_errors_differ_def same_core_def)

lemma only_errors_differ_trans:
  "only_errors_differ a b \<Longrightarrow> only_errors_differ b c \<Longrightarrow> only_errors_differ a c"
  by (simp add: only_errors_differ_def same_core_def)

lemma only_errors_differ_fields:
  assumes "only_errors_differ s s'"
  shows "code s' = code s" "data s' = data s" "ic s' = ic s" "dc s' = dc s"
    "symbol_table s' = symbol_table s" "ext_table s' = ext_table s"
    "line_num s' = line_num s" "is_entry_exists s' = is_entry_exists s"
    "is_extern_exists s' = is_extern_exists s"
  using assms by (simp_all add: only_errors_differ_def same_core_def)

lemma append_words_only_errors:
  "only_errors_differ s t \<Longrightarrow> append_words_to_data ws s = Some s' \<Longrightarrow>
     \<exists>t'. append_words_to_data ws t = Some t' \<and> only_errors_differ s' t'"
proof (induction ws arbitrary: s t s')
  case Nil then show ?case by simp
next
  case (Cons w ws)
  from Cons.prems(2) have r: "0 \<le> dc s" "dc s < MEM_SIZE"
    and a: "append_words_to_data ws (s\<lparr>data := (data s)(nat (dc s) := w), dc := dc s + 1\<rparr>) = Some s'"
    by (auto split: if_splits)
  have "only_errors_differ (s\<lparr>data := (data s)(nat (dc s) := w), dc := dc s + 1\<rparr>)
          (t\<lparr>data := (data t)(nat (dc t) := w), dc := dc t + 1\<rparr>)"
    using Cons.prems(1) by (simp add: only_errors_differ_def same_core_def)
  from Cons.IH [OF this a] show ?case using r Cons.prems(1)
    by (simp add: only_errors_differ_def same_core_def)
qed

lemma append_words_fields:
  assumes "append_words_to_data ws s = Some s'"
  shows "dc s' = dc s + int (length ws)"
    and "ws \<noteq> [] \<longrightarrow> 0 \<le> dc s \<and> dc s' \<le> MEM_SIZE"
    and "\<forall>i < length ws. data s' (nat (dc s) + i) = ws ! i"
    and "\<forall>j. j < nat (dc s) \<or> nat (dc s) + length ws \<le> j \<longrightarrow> data s' j = data s j"
    and "code s' = code s" and "ic s' = ic s" and "symbol_table s' = symbol_table s"
    and "ext_table s' = ext_table s" and "line_num s' = line_num s"
    and "is_entry_exists s' = is_entry_exists s" and "is_extern_exists s' = is_extern_exists s"
    and "errors s' = errors s"
  using assms
proof (induction ws arbitrary: s)
  case Nil
  {
    case 1 then show ?case by simp
  next
    case 2 then show ?case by simp
  next
    case 3 then show ?case by simp
  next
    case 4 then show ?case by simp
  next
    case 5 then show ?case by simp
  next
    case 6 then show ?case by simp
  next
    case 7 then show ?case by simp
  next
    case 8 then show ?case by simp
  next
    case 9 then show ?case by simp
  next
    case 10 then show ?case by simp
  next
    case 11 then show ?case by simp
  next
    case 12 then show ?case by simp
  }
next
  case (Cons w ws)
  {
    case 1 then show ?case using Cons.IH(1) by (auto split: if_splits)
  next
    case 2 then show ?case using Cons.IH(1,2) [of "s\<lparr>data := (data s)(nat (dc s) := w), dc := dc s + 1\<rparr>"]
      by (cases ws) (auto split: if_splits)
  next
    case 3
    then have r: "0 \<le> dc s"
      and a: "append_words_to_data ws (s\<lparr>data := (data s)(nat (dc s) := w), dc := dc s + 1\<rparr>) = Some s'"
      by (auto split: if_splits)
    have n: "nat (dc s + 1) = Suc (nat (dc s))" using r by simp
    show ?case
    proof (intro allI impI)
      fix i assume "i < length (w # ws)"
      then show "data s' (nat (dc s) + i) = (w # ws) ! i"
        using Cons.IH(3) [OF a] Cons.IH(4) [OF a] n
        by (cases i) auto
    qed
  next
    case 4
    then have r: "0 \<le> dc s"
      and a: "append_words_to_data ws (s\<lparr>data := (data s)(nat (dc s) := w), dc := dc s + 1\<rparr>) = Some s'"
      by (auto split: if_splits)
    have n: "nat (dc s + 1) = Suc (nat (dc s))" using r by simp
    show ?case using Cons.IH(4) [OF a] n by auto
  next
    case 5 then show ?case using Cons.IH(5) by (auto split: if_splits)
  next
    case 6 then show ?case using Cons.IH(6) by (auto split: if_splits)
  next
    case 7 then show ?case using Cons.IH(7) by (auto split: if_splits)
  next
    case 8 then show ?case using Cons.IH(8) by (auto split: if_splits)
  next
    case 9 then show ?case using Cons.IH(9) by (auto split: if_splits)
  next
    case 10 then show ?case using Cons.IH(10) by (auto split: if_splits)
  next
    case 11 then show ?case using Cons.IH(11) by (auto split: if_splits)
  next
    case 12 then show ?case using Cons.IH(12) by (auto split: if_splits)
  }
qed

lemma process_operation_failed:
  "process_operation op line s = Some (False, s') \<Longrightarrow> only_errors_differ s s'"
  by (auto simp: process_operation_def Let_def append_word_to_code_def
           split: option.splits sum.splits prod.splits if_splits)

lemma process_operation_success:
  assumes "process_operation op line s = Some (True, s')"
  shows "0 \<le> ic s" "ic s < MEM_SIZE" "ic s < ic s'" "ic s' \<le> ic s + 3"
    "dc s' = dc s" "data s' = data s" "symbol_table s' = symbol_table s"
    "ext_table s' = ext_table s" "is_extern_exists s' = is_extern_exists s"
proof -
  from process_operation_operands [OF assms] obtain h1 h2 o1 o2 where
    go: "get_operands op line = Some (Inr (h1, h2, o1, o2))" by blast
  note f = process_operation_accepted [OF assms go]
  show "0 \<le> ic s" "ic s < MEM_SIZE" by (rule f)+
  show "ic s < ic s'" "ic s' \<le> ic s + 3"
    by (subst f(1), simp add: get_additional_word_count_def Let_def)+
  show "dc s' = dc s" "data s' = data s" "symbol_table s' = symbol_table s"
    "ext_table s' = ext_table s" "is_extern_exists s' = is_extern_exists s"
    by (subst f(1), simp)+
qed

lemma process_entry_dir_effect:
  "process_entry_dir line s = Some (ok, s') \<Longrightarrow> only_errors_differ s s'"
  by (auto simp: process_entry_dir_def Let_def split: prod.splits if_splits)

lemma process_extern_dir_effect:
  assumes "process_extern_dir line s = Some (ok, s')"
  shows "same_core s s'"
    and "ok \<Longrightarrow> \<exists>n. symbol_table s' = symbol_table s @ [extern_symbol n]"
    and "\<not> ok \<Longrightarrow> only_errors_differ s s'"
  using assms
  by (auto simp: process_extern_dir_def Let_def add_symbol_to_list_def create_symbol_def extern_symbol_def
           only_errors_differ_def same_core_def
           split: prod.splits if_splits option.splits)

lemma append_character_as_words:
  "append_characters_to_data cs s = append_words_to_data (map char_to_uint cs) s"
  by (induction cs arbitrary: s) (auto simp: append_character_to_data_def)

lemma append_words_append:
  "append_words_to_data (xs @ ys) s =
     (case append_words_to_data xs s of None \<Rightarrow> None | Some s1 \<Rightarrow> append_words_to_data ys s1)"
  by (induction xs arbitrary: s) auto

lemma process_string_dir_effect:
  assumes "process_string_dir line s = Some (ok, s')"
  shows "ok \<Longrightarrow> append_words_to_data (map char_to_uint (string_items line)) s = Some s'"
    and "\<not> ok \<Longrightarrow> only_errors_differ s s'"
  using assms
  by (auto simp: process_string_dir_def string_items_def Let_def append_character_as_words
                 append_words_append append_character_to_data_def
           split: option.splits if_splits)

lemma process_data_dir_effect:
  "process_data_dir line s = Some (ok, s') \<Longrightarrow>
     \<exists>s1. append_words_to_data (map (\<lambda>p. word_of_int (atoi p)) (data_items line)) s = Some s1
          \<and> only_errors_differ s1 s' \<and> (ok \<and> \<not> is_empty line \<longrightarrow> data_items line \<noteq> [])"
proof (induction line s arbitrary: ok s' rule: process_data_dir.induct)
  case (1 line s)
  show ?case
  proof (cases "is_empty line")
    case True
    then show ?thesis using "1.prems"
      by (simp add: process_data_dir.simps [of line] data_items.simps [of line])
  next
    case ne: False
    show ?thesis
    proof (cases "is_number (copy_next_token line SEPS_COMMA)")
      case False
      then show ?thesis using "1.prems" ne
        by (auto simp: process_data_dir.simps [of line] data_items.simps [of line])
    next
      case num: True
      from "1.prems" ne num obtain l where l: "extract_remaining_seq line SEPS_COMMA = Some l"
        by (auto simp: process_data_dir.simps [of line] split: option.splits)
      show ?thesis
      proof (cases "(\<not> is_empty l \<and> peek l \<noteq> CHR '','') \<or> (is_empty (tl l) \<and> peek l = CHR '','')")
        case True
        then show ?thesis using "1.prems" ne num l
          by (auto simp: process_data_dir.simps [of line] data_items.simps [of line])
      next
        case ok2: False
        from "1.prems" ne num l ok2 obtain s1 where
          s1: "append_number_to_data (atoi (copy_next_token line SEPS_COMMA)) s = Some s1"
          by (auto simp: process_data_dir.simps [of line] split: option.splits)
        then have r: "0 \<le> dc s" "dc s < MEM_SIZE"
          and s1eq: "s1 = s\<lparr>data := (data s)(nat (dc s) := word_of_int (atoi (copy_next_token line SEPS_COMMA))), dc := dc s + 1\<rparr>"
          by (auto simp: append_number_to_data_def split: if_splits)
        show ?thesis
        proof (cases "is_empty l")
          case True
          then show ?thesis using "1.prems" ne num l ok2 s1 r s1eq
            by (auto simp: process_data_dir.simps [of line] data_items.simps [of line])
        next
          case False
          with "1.prems" ne num l ok2 s1 have rec: "process_data_dir (tl l) s1 = Some (ok, s')"
            by (auto simp: process_data_dir.simps [of line])
          from "1.IH" [OF ne refl _ l _ _ s1 False rec] num ok2
          obtain s2 where "append_words_to_data (map (\<lambda>p. word_of_int (atoi p)) (data_items (tl l))) s1 = Some s2"
            "only_errors_differ s2 s'" by auto
          then show ?thesis using ne num l ok2 r s1eq False
            by (auto simp: data_items.simps [of line])
        qed
      qed
    qed
  qed
qed

subsection \<open>Labels and their removal\<close>

lemma find_symbol_append:
  "find_symbol (tbl @ [x]) n =
     (case find_symbol tbl n of
        Some i \<Rightarrow> Some i
      | None \<Rightarrow> if name x = n then Some (length tbl) else None)"
  by (induction tbl) (auto split: option.splits)

lemma delete_symbol_appended:
  "find_symbol tbl (name x) = None \<Longrightarrow> delete_symbol (tbl @ [x]) (name x) = tbl"
  by (simp add: delete_symbol_def find_symbol_append)

lemma drop_label_table:
  "label_state h tbl n s \<Longrightarrow> symbol_table (drop_label h s) = tbl"
  by (cases h) (auto simp: label_state_def drop_label_def delete_symbol_appended)

lemma set_label_table:
  "label_state h tbl n s \<Longrightarrow> symbol_table (set_label h t a s) = table_with_label h tbl n t a"
  by (cases h) (auto simp: label_state_def set_label_def table_with_label_def placed_label_def)

lemma set_label_state:
  "label_state h tbl n s \<Longrightarrow> label_state h tbl n (set_label h t a s)"
  by (cases h) (auto simp: label_state_def set_label_def)

lemma label_state_cong:
  "label_state h tbl n s \<Longrightarrow> symbol_table s' = symbol_table s \<Longrightarrow> label_state h tbl n s'"
  by (cases h) (auto simp: label_state_def)

lemma same_core_drop_label [simp]: "same_core s (drop_label h s)" "same_core s (set_label h t a s)"
  by (simp_all add: same_core_def)

lemma same_core_trans: "same_core a b \<Longrightarrow> same_core b c \<Longrightarrow> same_core a c"
  by (simp add: same_core_def)

lemma only_errors_same_core: "only_errors_differ a b \<Longrightarrow> same_core a b"
  by (simp add: only_errors_differ_def)

lemma rolled_backI:
  assumes "label_state h tbl n s1" "symbol_table s1 = symbol_table s2 \<or> symbol_table s2 = symbol_table s1"
    "same_core s s2" "is_extern_exists s2 = is_extern_exists s"
  shows "rolled_back tbl s (drop_label h s2)" "rolled_back tbl s (print_error e (drop_label h s2))"
proof -
  have "label_state h tbl n s2" using assms(1,2) by (auto intro: label_state_cong)
  then have "symbol_table (drop_label h s2) = tbl" by (rule drop_label_table)
  then show "rolled_back tbl s (drop_label h s2)" "rolled_back tbl s (print_error e (drop_label h s2))"
    using assms(3,4) by (simp_all add: rolled_back_def same_core_def)
qed

subsection \<open>The ways through \<^verbatim>\<open>parse_line\<close>\<close>

lemma parse_statement_cases:
  assumes ps: "parse_statement h tok l s = Some (ok, s')" and ls: "label_state h tbl n s"
  obtains
    (operation) ops where "find_operation tok \<noteq> NONE_OP"
      "extract_remaining_seq l SEPS_COMMA = Some ops" "ok"
      "process_operation (find_operation tok) ops (set_label h INSTRUCTION (ic s) s) = Some (True, s')"
  | (data) ops s2 where "find_operation tok = NONE_OP" "find_directive tok = DATA"
      "extract_remaining_seq l SEPS_COMMA = Some ops" "\<not> is_empty ops"
      "process_data_dir ops (set_label h DIRECTIVE (dc s) s) = Some (ok, s2)"
      "s' = (if ok then s2 else drop_label h s2)"
  | (string) ops where "find_operation tok = NONE_OP" "find_directive tok = STRING"
      "extract_remaining_seq l SEPS_COMMA = Some ops" "\<not> is_empty ops" "ok"
      "process_string_dir ops (set_label h DIRECTIVE (dc s) s) = Some (True, s')"
  | (entry) ops where "find_operation tok = NONE_OP" "find_directive tok = ENTRY"
      "extract_remaining_seq l SEPS_COMMA = Some ops" "ok"
      "process_entry_dir ops (drop_label h s) = Some (True, s')"
  | (extern) ops where "find_operation tok = NONE_OP" "find_directive tok = EXTERN"
      "extract_remaining_seq l SEPS_COMMA = Some ops" "ok"
      "process_extern_dir ops (drop_label h s) = Some (True, s')"
  | (failed) "\<not> ok" "rolled_back tbl s s'"
proof (cases "find_operation tok \<noteq> NONE_OP")
  case isop: True
  define s1 where "s1 = set_label h INSTRUCTION (ic s) s"
  have ls1: "label_state h tbl n s1" unfolding s1_def using ls by (rule set_label_state)
  have sc1: "same_core s s1" "is_extern_exists s1 = is_extern_exists s" by (simp_all add: s1_def)
  from ps isop obtain ops where ops: "extract_remaining_seq l SEPS_COMMA = Some ops"
    by (auto simp: parse_statement_def Let_def split: option.splits)
  show ?thesis
  proof (cases "peek ops = CHR '','' \<or> has_consecutive_commas ops")
    case True
    then have "\<not> ok" "rolled_back tbl s s'"
      using ps isop ops rolled_backI(2) [OF ls1 _ sc1]
      by (auto simp: parse_statement_def Let_def s1_def [symmetric] split: if_splits)
    then show ?thesis by (intro failed) auto
  next
    case False
    with ps isop ops obtain ok2 s2 where po: "process_operation (find_operation tok) ops s1 = Some (ok2, s2)"
      and res: "ok = ok2" "s' = (if ok2 then s2 else drop_label h s2)"
      by (auto simp: parse_statement_def Let_def s1_def [symmetric] split: option.splits if_splits)
    show ?thesis
    proof (cases ok2)
      case True
      then show ?thesis using po res ops isop by (intro operation) (auto simp: s1_def)
    next
      case False
      with po have oe: "only_errors_differ s1 s2" by (auto dest: process_operation_failed)
      have "rolled_back tbl s (drop_label h s2)"
        using oe sc1
        by (intro rolled_backI(1) [OF ls1])
           (auto simp: only_errors_differ_def same_core_def)
      then show ?thesis using False res by (intro failed) auto
    qed
  qed
next
  case noop: False
  show ?thesis
  proof (cases "find_directive tok = NONE_DIR")
    case True
    then have "\<not> ok" "rolled_back tbl s s'"
      using ps noop rolled_backI(2) [OF ls, of s s]
      by (auto simp: parse_statement_def Let_def same_core_def)
    then show ?thesis by (intro failed) auto
  next
    case isdir: False
    define h1 where "h1 = (if find_directive tok = EXTERN \<or> find_directive tok = ENTRY then None else h)"
    define s1 where "s1 = (if find_directive tok = EXTERN \<or> find_directive tok = ENTRY
                            then drop_label h s else set_label h DIRECTIVE (dc s) s)"
    have ls1: "label_state h1 tbl n s1"
      unfolding h1_def s1_def using ls drop_label_table [OF ls] set_label_state [OF ls]
      by (auto simp: label_state_def)
    have sc1: "same_core s s1" "is_extern_exists s1 = is_extern_exists s" by (simp_all add: s1_def)
    from ps noop isdir obtain ops where ops: "extract_remaining_seq l SEPS_COMMA = Some ops"
      by (auto simp: parse_statement_def Let_def split: option.splits if_splits prod.splits)
    have body: "(if peek ops = CHR '','' then Some (False, print_error ILLEGAL_COMMA (drop_label h1 s1))
         else if has_consecutive_commas ops
              then Some (False, print_error CONSECUTIVE_COMMAS (drop_label h1 s1))
              else (case process_directive (find_directive tok) ops s1 of
                      None \<Rightarrow> None
                    | Some (ok, s2) \<Rightarrow> if \<not> ok then Some (False, drop_label h1 s2) else Some (True, s2)))
          = Some (ok, s')"
    proof (cases "find_directive tok = EXTERN \<or> find_directive tok = ENTRY")
      case True
      then have e: "h1 = None" "s1 = drop_label h s" by (simp_all add: h1_def s1_def)
      show ?thesis
        unfolding e using ps noop isdir ops True
        by (simp add: parse_statement_def Let_def split del: if_split
                 del: process_directive.simps)
    next
      case False
      then have e: "h1 = h" "s1 = set_label h DIRECTIVE (dc s) s" by (simp_all add: h1_def s1_def)
      show ?thesis
        unfolding e using ps noop isdir ops False
        by (simp add: parse_statement_def Let_def split del: if_split
                 del: process_directive.simps)
    qed
    show ?thesis
    proof (cases "peek ops = CHR '','' \<or> has_consecutive_commas ops")
      case True
      then have "\<not> ok" "rolled_back tbl s s'"
        using body rolled_backI(2) [OF ls1 _ sc1]
        by (auto split: if_splits)
      then show ?thesis by (intro failed) auto
    next
      case False
      with body obtain ok2 s2 where pd: "process_directive (find_directive tok) ops s1 = Some (ok2, s2)"
        and res: "ok = ok2" "s' = (if ok2 then s2 else drop_label h1 s2)"
        by (auto split: option.splits if_splits)
      have fail: thesis if oe: "only_errors_differ s1 s2" and nok: "\<not> ok2"
      proof -
        have "rolled_back tbl s (drop_label h1 s2)"
          using oe sc1
          by (intro rolled_backI(1) [OF ls1])
             (auto simp: only_errors_differ_def same_core_def)
        then show thesis using nok res by (intro failed) auto
      qed
      show ?thesis
      proof (cases "is_empty ops")
        case True
        then have "only_errors_differ s1 s2" "\<not> ok2" using pd by auto
        then show ?thesis by (rule fail)
      next
        case ne: False
        show ?thesis
        proof (cases "find_directive tok")
          case DATA
          then have "process_data_dir ops (set_label h DIRECTIVE (dc s) s) = Some (ok, s2)"
            "s' = (if ok then s2 else drop_label h s2)"
            using pd ne res by (simp_all add: s1_def h1_def)
          then show ?thesis using noop DATA ops ne by (intro data) auto
        next
          case STRING
          then have p: "process_string_dir ops s1 = Some (ok2, s2)" using pd ne by simp
          show ?thesis
          proof (cases ok2)
            case True
            then show ?thesis using p res noop STRING ops ne
              by (intro string) (auto simp: s1_def)
          next
            case False
            then show ?thesis using process_string_dir_effect(2) [OF p] by (intro fail) auto
          qed
        next
          case ENTRY
          then have p: "process_entry_dir ops s1 = Some (ok2, s2)" using pd ne by simp
          show ?thesis
          proof (cases ok2)
            case True
            then show ?thesis using p res noop ENTRY ops
              by (intro entry) (auto simp: s1_def)
          next
            case False
            then show ?thesis using process_entry_dir_effect [OF p] by (intro fail) auto
          qed
        next
          case EXTERN
          then have p: "process_extern_dir ops s1 = Some (ok2, s2)" using pd ne by simp
          show ?thesis
          proof (cases ok2)
            case True
            then show ?thesis using p res noop EXTERN ops
              by (intro extern) (auto simp: s1_def)
          next
            case False
            then show ?thesis using process_extern_dir_effect(3) [OF p] by (intro fail) auto
          qed
        next
          case NONE_DIR
          then show ?thesis using isdir by simp
        qed
      qed
    qed
  qed
qed

lemma parse_line_cases:
  assumes pl: "parse_line line s = Some (ok, s')"
  obtains
    (early) "\<not> ok" "only_errors_differ s s'"
  | (statement) h tok l s1 n where "statement_of_line line = (tok, Some l)"
      "parse_statement h tok l s1 = Some (ok, s')" "label_state h (symbol_table s) n s1"
      "same_core s s1" "is_extern_exists s1 = is_extern_exists s"
proof (cases "fst (is_symbol (copy_next_token line SEPS_LABEL) True)")
  case False
  define s1 where "s1 = print_errors (snd (is_symbol (copy_next_token line SEPS_LABEL) True)) s"
  show ?thesis
  proof (rule statement)
    show "statement_of_line line = (copy_next_token line SEPS_LABEL, Some line)"
      using False by (simp add: statement_of_line_def)
    show "parse_statement None (copy_next_token line SEPS_LABEL) line s1 = Some (ok, s')"
      using parse_line_no_label [OF False] pl by (simp add: s1_def)
    show "label_state None (symbol_table s) [] s1" by (simp add: label_state_def s1_def)
    show "same_core s s1" "is_extern_exists s1 = is_extern_exists s"
      by (simp_all add: s1_def same_core_def)
  qed
next
  case True
  define tok0 where "tok0 = copy_next_token line SEPS_LABEL"
  define n where "n = butlast tok0"
  define s1 where "s1 = print_errors (snd (is_symbol tok0 True)) s"
  have pl': "(case add_symbol_to_list n DEFAULT_ADDR False s1 of
              (None, s2) \<Rightarrow> Some (False, s2)
            | (Some current_symbol, s2) \<Rightarrow>
                (let line1 = extract_remaining_seq line [CHR '':''] in
                 if is_empty_ptr line1 then
                   Some (False, print_error SYMBOL_ONLY (drop_label (Some current_symbol) s2))
                 else
                   (case line1 of
                      None \<Rightarrow> None
                    | Some l1 \<Rightarrow>
                        parse_statement (Some current_symbol)
                          (copy_next_token l1 SEPS_COMMA) l1 s2))) = Some (ok, s')"
    using pl True
    by (cases "is_symbol (copy_next_token line SEPS_LABEL) True")
       (simp add: parse_line_def Let_def tok0_def n_def s1_def)
  show ?thesis
  proof (cases "is_existing_symbol (symbol_table s) n")
    case ex: True
    then have "\<not> ok" "only_errors_differ s s'"
      using pl' by (auto simp: add_label s1_def only_errors_differ_def same_core_def)
    then show ?thesis by (rule early)
  next
    case nex: False
    define s2 where "s2 = s1\<lparr>symbol_table := symbol_table s @ [new_label n]\<rparr>"
    have ls2: "label_state (Some (length (symbol_table s))) (symbol_table s) n s2"
      using nex by (simp add: label_state_def s2_def new_label_def is_existing_symbol_def)
    have sc2: "same_core s s2" "is_extern_exists s2 = is_extern_exists s"
      by (simp_all add: s2_def s1_def same_core_def)
    have pl2: "(let line1 = extract_remaining_seq line [CHR '':''] in
                 if is_empty_ptr line1 then
                   Some (False, print_error SYMBOL_ONLY (drop_label (Some (length (symbol_table s))) s2))
                 else
                   (case line1 of
                      None \<Rightarrow> None
                    | Some l1 \<Rightarrow>
                        parse_statement (Some (length (symbol_table s)))
                          (copy_next_token l1 SEPS_COMMA) l1 s2)) = Some (ok, s')"
    proof -
      have t1: "symbol_table s1 = symbol_table s" by (simp add: s1_def)
      show ?thesis using pl' nex unfolding s2_def by (simp add: add_label t1)
    qed
    show ?thesis
    proof (cases "is_empty_ptr (extract_remaining_seq line [CHR '':''])")
      case True
      then have r: "\<not> ok" "s' = print_error SYMBOL_ONLY (drop_label (Some (length (symbol_table s))) s2)"
        using pl2 by (auto simp: Let_def)
      have "rolled_back (symbol_table s) s s'"
        unfolding r(2) using sc2 by (intro rolled_backI(2) [OF ls2]) auto
      then have "only_errors_differ s s'"
        by (simp add: rolled_back_def only_errors_differ_def)
      then show ?thesis using r(1) by (intro early)
    next
      case False
      then obtain l1 where l1: "extract_remaining_seq line [CHR '':''] = Some l1"
        by (cases "extract_remaining_seq line [CHR '':'']") auto
      show ?thesis
      proof (rule statement)
        show "statement_of_line line = (copy_next_token l1 SEPS_COMMA, Some l1)"
          using True l1 by (simp add: statement_of_line_def)
        show "parse_statement (Some (length (symbol_table s))) (copy_next_token l1 SEPS_COMMA) l1 s2
                = Some (ok, s')"
          using pl2 False l1 by (simp add: Let_def)
        show "label_state (Some (length (symbol_table s))) (symbol_table s) n s2" by (rule ls2)
        show "same_core s s2" "is_extern_exists s2 = is_extern_exists s" by (rule sc2)+
      qed
    qed
  qed
qed

lemma parse_line_directive_views:
  assumes "statement_of_line line = (tok, Some l0)" "find_operation tok = NONE_OP"
    "find_directive tok = d" "d \<noteq> NONE_DIR" "extract_remaining_seq l0 SEPS_COMMA = Some ops"
  shows "directive_of_line line = Some (d, ops)"
  using assms by (simp add: directive_of_line_def)

subsection \<open>Words of the data segment\<close>

text \<open>
  C5 as amended. For every accepted \<^verbatim>\<open>.data\<close> line, the words appended to the data segment
  are the numbers themselves, converted to \<^verbatim>\<open>unsigned int\<close> (\<open>word_of_int\<close> of the value of
  \<^verbatim>\<open>atoi\<close>), one per
  parameter and in order; for every accepted \<^verbatim>\<open>.string\<close> line they are the character codes
  followed by one word 0. No word is shifted and no ARE field is added.
\<close>

theorem data_words_stored:
  assumes acc: "parse_line line s = Some (True, s')"
      and dir: "directive_of_line line = Some (d, l)"
  shows "(d = DATA \<longrightarrow> stored_words s s' (map (\<lambda>p. word_of_int (atoi p)) (data_items l)))
       \<and> (d = STRING \<longrightarrow> stored_words s s' (map char_to_uint (string_items l)))"
proof -
  from acc show ?thesis
  proof (cases rule: parse_line_cases)
    case early
    then show ?thesis by simp
  next
    case (statement h tok l0 s1 n)
    from dir statement(1) have tk: "find_operation tok = NONE_OP" "find_directive tok = d"
      and ex: "extract_remaining_seq l0 SEPS_COMMA = Some l"
      by (auto simp: directive_of_line_def split: if_splits option.splits)
    have dcs: "dc s1 = dc s" "data s1 = data s" using statement(4) by (simp_all add: same_core_def)
    have st: "stored_words s s' ws" if "append_words_to_data ws (set_label h DIRECTIVE (dc s1) s1) = Some sa"
        "dc s' = dc sa" "data s' = data sa" for ws sa
      using append_words_fields(1,3) [OF that(1)] that(2,3) dcs
      by (simp add: stored_words_def list_all_iff)
    from statement(2,3) show ?thesis
    proof (cases rule: parse_statement_cases)
      case (operation ops)
      then show ?thesis using tk by simp
    next
      case (data ops s2)
      then have "ops = l" using ex by simp
      from process_data_dir_effect [OF data(5)] obtain sa where
        sa: "append_words_to_data (map (\<lambda>p. word_of_int (atoi p)) (data_items ops))
               (set_label h DIRECTIVE (dc s1) s1) = Some sa"
        and oe: "only_errors_differ sa s2" by blast
      have "s' = s2" using data(6) by simp
      then show ?thesis
        using st [OF sa] oe tk data(2) \<open>ops = l\<close>
        by (simp add: only_errors_differ_def same_core_def)
    next
      case (string ops)
      then have "ops = l" using ex by simp
      from process_string_dir_effect(1) [OF string(6)]
      have sa: "append_words_to_data (map char_to_uint (string_items ops))
               (set_label h DIRECTIVE (dc s1) s1) = Some s'" by simp
      show ?thesis using st [OF sa] tk string(2) \<open>ops = l\<close> by simp
    next
      case (entry ops)
      then show ?thesis using tk by auto
    next
      case (extern ops)
      then show ?thesis using tk by auto
    next
      case failed
      then show ?thesis by simp
    qed
  qed
qed

lemmas dir_defs = process_directive.simps process_data_dir.simps process_string_dir_def
  process_entry_dir_def process_extern_dir_def append_number_to_data_def
  append_character_to_data_def char_to_uint_def is_string_def atoi_def

lemma example_data_7_directive: "directive_of_line ''.data 7'' = Some (DATA, ''7'')"
  by (simp add: directive_of_line_def statement_of_line_def lex_defs)

lemma example_data_7_run:
  "parse_line ''.data 7'' init_state
     = Some (True, init_state\<lparr>data := (\<lambda>_. 0)(0 := 7), dc := 1\<rparr>)"
  by (simp add: lex_defs pass1_defs dir_defs init_state_def Let_def)

theorem data_words_stored_witness:
  "parse_line ''.data 7'' init_state
     = Some (True, init_state\<lparr>data := (\<lambda>_. 0)(0 := 7), dc := 1\<rparr>)
   \<and> directive_of_line ''.data 7'' = Some (DATA, ''7'')
   \<and> stored_words init_state (init_state\<lparr>data := (\<lambda>_. 0)(0 := 7), dc := 1\<rparr>)
        (map (\<lambda>p. word_of_int (atoi p)) (data_items ''7''))"
  using data_words_stored [OF example_data_7_run example_data_7_directive]
        example_data_7_run example_data_7_directive
  by simp

text \<open>
  C5 as claimed fails: for \<^verbatim>\<open>.data 7\<close> the word stored is 7, and the claimed word, the value
  shifted left by 2 with ARE \<open>ABSOLUTE\<close>, is 28.
\<close>

theorem data_word_counterexample:
  "parse_line ''.data 7'' init_state
     = Some (True, init_state\<lparr>data := (\<lambda>_. 0)(0 := 7), dc := 1\<rparr>)
   \<and> data (init_state\<lparr>data := (\<lambda>_. 0)(0 := 7), dc := 1\<rparr>) 0 = word_of_int (atoi ''7'')
   \<and> data (init_state\<lparr>data := (\<lambda>_. 0)(0 := 7), dc := 1\<rparr>) 0
       \<noteq> encode_are (word_of_int (atoi ''7'')) ABSOLUTE
   \<and> encode_are (word_of_int (atoi ''7'')) ABSOLUTE = 28"
  using example_data_7_run
  by (simp add: atoi_def isspace_def isdigit_def encode_are_def ARE_BITS_def)

subsection \<open>Lines that fail\<close>

text \<open>
  C4 as amended. For every line that fails in pass 1, the code segment, \<open>ic\<close> and the symbol
  table are as before the line (a label the line added is removed again). The data words
  below the old \<open>dc\<close> are unchanged and \<open>dc\<close> does not decrease; when the statement of the
  line is not a \<^verbatim>\<open>.data\<close> directive, the whole data segment and \<open>dc\<close> are unchanged.
\<close>

theorem failed_line_rollback:
  assumes "parse_line line s = Some (False, s')"
  shows "code s' = code s \<and> ic s' = ic s \<and> symbol_table s' = symbol_table s
       \<and> list_all (\<lambda>j. data s' j = data s j) [0 ..< nat (dc s)] \<and> dc s \<le> dc s'
       \<and> (find_directive (fst (statement_of_line line)) \<noteq> DATA
            \<longrightarrow> data s' = data s \<and> dc s' = dc s)"
proof -
  from assms show ?thesis
  proof (cases rule: parse_line_cases)
    case early
    then show ?thesis by (simp add: only_errors_differ_def same_core_def list_all_iff)
  next
    case (statement h tok l0 s1 n)
    have rb: ?thesis if "rolled_back (symbol_table s) s1 s'"
      using that statement(4) by (simp add: rolled_back_def same_core_def list_all_iff)
    from statement(2,3) show ?thesis
    proof (cases rule: parse_statement_cases)
      case (data ops s2)
      from process_data_dir_effect [OF data(5)] obtain sa where
        sa: "append_words_to_data (map (\<lambda>p. word_of_int (atoi p)) (data_items ops))
               (set_label h DIRECTIVE (dc s1) s1) = Some sa"
        and oe: "only_errors_differ sa s2" by blast
      note f = append_words_fields [OF sa]
      have ls2: "label_state h (symbol_table s) n s2"
        using set_label_state [OF statement(3), of DIRECTIVE "dc s1"] f(7) oe
        by (auto intro: label_state_cong simp: only_errors_differ_def)
      have t: "symbol_table s' = symbol_table s"
        using data(6) drop_label_table [OF ls2] by simp
      have "code s' = code s" "ic s' = ic s" "dc s' = dc s + int (length (data_items ops))"
        "data s' = data sa"
        using data(6) f(1,5,6) oe statement(4)
        by (simp_all add: only_errors_differ_def same_core_def)
      moreover have "\<forall>j. j < nat (dc s) \<longrightarrow> data sa j = data s j"
        using f(4) statement(4) by (simp add: same_core_def)
      ultimately show ?thesis
        using t data(2) statement(1) by (simp add: list_all_iff)
    next
      case failed
      then show ?thesis by (intro rb)
    qed simp_all
  qed
qed

lemma example_failed_label_run:
  "parse_line ''A: mov @r1'' init_state
     = Some (False, init_state\<lparr>errors := [(0, OP_INVALID_OPERANDS_NUM)]\<rparr>)"
  by (simp add: lex_defs pass1_defs mode_defs init_state_def Let_def delete_symbol_def)

theorem failed_line_rollback_witness:
  "parse_line ''A: mov @r1'' init_state
     = Some (False, init_state\<lparr>errors := [(0, OP_INVALID_OPERANDS_NUM)]\<rparr>)
   \<and> symbol_table (init_state\<lparr>errors := [(0, OP_INVALID_OPERANDS_NUM)]\<rparr>)
       = symbol_table init_state
   \<and> find_directive (fst (statement_of_line ''A: mov @r1'')) \<noteq> DATA"
  using failed_line_rollback [OF example_failed_label_run] example_failed_label_run
  by (simp add: statement_of_line_def lex_defs)

lemma example_partial_data_run:
  "parse_line ''.data 1, x'' init_state
     = Some (False, init_state\<lparr>data := (\<lambda>_. 0)(0 := 1), dc := 1,
                                errors := [(0, DATA_NOT_NUM)]\<rparr>)"
  by (simp add: lex_defs pass1_defs dir_defs init_state_def Let_def)

text \<open>
  C4 as claimed fails: the line \<^verbatim>\<open>.data 1, x\<close> fails with \<open>DATA_NOT_NUM\<close> after the number
  1 has been appended to the data segment.
\<close>

theorem failed_line_counterexample:
  "parse_line ''.data 1, x'' init_state
     = Some (False, init_state\<lparr>data := (\<lambda>_. 0)(0 := 1), dc := 1,
                                errors := [(0, DATA_NOT_NUM)]\<rparr>)
   \<and> data (init_state\<lparr>data := (\<lambda>_. 0)(0 := 1), dc := 1, errors := [(0, DATA_NOT_NUM)]\<rparr>)
       \<noteq> data init_state"
proof -
  have "data (init_state\<lparr>data := (\<lambda>_. 0)(0 := 1), dc := 1, errors := [(0, DATA_NOT_NUM)]\<rparr>) 0
          \<noteq> data init_state 0" by simp
  then have "data (init_state\<lparr>data := (\<lambda>_. 0)(0 := 1), dc := 1, errors := [(0, DATA_NOT_NUM)]\<rparr>)
          \<noteq> data init_state" by metis
  then show ?thesis using example_partial_data_run by simp
qed

subsection \<open>Addresses of the symbols\<close>

lemma symbol_ok_mono: "symbol_ok i d smb \<Longrightarrow> i \<le> i' \<Longrightarrow> d \<le> d' \<Longrightarrow> symbol_ok i' d' smb"
  by (auto simp: symbol_ok_def split: if_splits)

lemma symbols_ok_mono:
  "list_all (symbol_ok i d) tbl \<Longrightarrow> i \<le> i' \<Longrightarrow> d \<le> d' \<Longrightarrow> list_all (symbol_ok i' d') tbl"
  by (auto simp: list_all_iff intro: symbol_ok_mono)

lemma uint_small: "0 \<le> a \<Longrightarrow> a \<le> 4096 \<Longrightarrow> uint (word_of_int a :: 32 word) = a"
  by (simp add: uint_word_of_int)

lemma placed_label_ok:
  "0 \<le> a \<Longrightarrow> a \<le> MEM_SIZE \<Longrightarrow> a < i \<Longrightarrow> symbol_ok i d (placed_label n INSTRUCTION a)"
  "0 \<le> a \<Longrightarrow> a \<le> MEM_SIZE \<Longrightarrow> a < d \<Longrightarrow> symbol_ok i d (placed_label n DIRECTIVE a)"
  by (simp_all add: symbol_ok_def placed_label_def uint_small MEM_SIZE_def)

lemma table_with_label_ok:
  assumes "list_all (symbol_ok i d) tbl" "0 \<le> a" "a \<le> MEM_SIZE"
  shows "a < i \<Longrightarrow> list_all (symbol_ok i d) (table_with_label h tbl n INSTRUCTION a)"
    and "a < d \<Longrightarrow> list_all (symbol_ok i d) (table_with_label h tbl n DIRECTIVE a)"
  using assms by (cases h; simp add: table_with_label_def placed_label_ok)+

lemma parse_line_inv:
  assumes inv: "pass1_inv s" and pl: "parse_line line s = Some (ok, s')"
  shows "pass1_inv s'"
proof -
  from inv have b: "0 \<le> ic s" "ic s \<le> MEM_SIZE + 2" "0 \<le> dc s" "dc s \<le> MEM_SIZE"
    and t: "list_all (symbol_ok (ic s) (dc s)) (symbol_table s)"
    by (simp_all add: pass1_inv_def)
  from pl show ?thesis
  proof (cases rule: parse_line_cases)
    case early
    then show ?thesis using inv by (simp add: only_errors_differ_def same_core_def pass1_inv_def)
  next
    case (statement h tok l0 s1 n)
    have c1: "ic s1 = ic s" "dc s1 = dc s" using statement(4) by (simp_all add: same_core_def)
    from statement(2,3) show ?thesis
    proof (cases rule: parse_statement_cases)
      case (operation ops)
      note f = process_operation_success [OF operation(4)]
      have "symbol_table s' = table_with_label h (symbol_table s) n INSTRUCTION (ic s)"
        using f(7) set_label_table [OF statement(3), of INSTRUCTION "ic s1"] c1 by simp
      moreover have "list_all (symbol_ok (ic s') (dc s')) (table_with_label h (symbol_table s) n INSTRUCTION (ic s))"
        using f(1-5) c1 b
        by (intro table_with_label_ok(1) symbols_ok_mono [OF t]) simp_all
      ultimately show ?thesis using f(1-5) c1 b by (simp add: pass1_inv_def)
    next
      case (data ops s2)
      from process_data_dir_effect [OF data(5)] obtain sa where
        sa: "append_words_to_data (map (\<lambda>p. word_of_int (atoi p)) (data_items ops))
               (set_label h DIRECTIVE (dc s1) s1) = Some sa"
        and oe: "only_errors_differ sa s2"
        and nonempty: "ok \<and> \<not> is_empty ops \<longrightarrow> data_items ops \<noteq> []" by blast
      note f = append_words_fields [OF sa]
      have ls2: "label_state h (symbol_table s) n s2"
        using set_label_state [OF statement(3), of DIRECTIVE "dc s1"] f(7) oe
        by (auto intro: label_state_cong simp: only_errors_differ_def)
      have t2: "symbol_table s2 = table_with_label h (symbol_table s) n DIRECTIVE (dc s)"
        using f(7) oe set_label_table [OF statement(3), of DIRECTIVE "dc s1"] c1
        by (simp add: only_errors_differ_def)
      have cnt: "ic s' = ic s" "dc s' = dc s + int (length (data_items ops))"
        using data(6) f(1,6) oe c1 by (auto simp: only_errors_differ_def same_core_def)
      have bound: "dc s' \<le> MEM_SIZE"
        using f(1,2) cnt c1 b by (cases "data_items ops = []") auto
      show ?thesis
      proof (cases ok)
        case True
        then have "dc s < dc s'" using nonempty data(4) cnt by (cases "data_items ops") auto
        then have "list_all (symbol_ok (ic s') (dc s')) (table_with_label h (symbol_table s) n DIRECTIVE (dc s))"
          using cnt b by (intro table_with_label_ok(2) symbols_ok_mono [OF t]) simp_all
        then show ?thesis using True data(6) t2 cnt b bound by (simp add: pass1_inv_def)
      next
        case False
        then have "symbol_table s' = symbol_table s"
          using data(6) drop_label_table [OF ls2] by simp
        moreover have "list_all (symbol_ok (ic s') (dc s')) (symbol_table s)"
          using cnt by (intro symbols_ok_mono [OF t]) simp_all
        ultimately show ?thesis using cnt b bound by (simp add: pass1_inv_def)
      qed
    next
      case (string ops)
      from process_string_dir_effect(1) [OF string(6)]
      have sa: "append_words_to_data (map char_to_uint (string_items ops))
               (set_label h DIRECTIVE (dc s1) s1) = Some s'" by simp
      note f = append_words_fields [OF sa]
      have ne: "map char_to_uint (string_items ops) \<noteq> []" by (simp add: string_items_def)
      have cnt: "ic s' = ic s" "dc s < dc s'" "dc s' \<le> MEM_SIZE"
        using f(1,2,6) c1 ne by (auto simp: string_items_def)
      have "symbol_table s' = table_with_label h (symbol_table s) n DIRECTIVE (dc s)"
        using f(7) set_label_table [OF statement(3), of DIRECTIVE "dc s1"] c1 by simp
      moreover have "list_all (symbol_ok (ic s') (dc s')) (table_with_label h (symbol_table s) n DIRECTIVE (dc s))"
        using cnt b by (intro table_with_label_ok(2) symbols_ok_mono [OF t]) simp_all
      ultimately show ?thesis using cnt b by (simp add: pass1_inv_def)
    next
      case (entry ops)
      from process_entry_dir_effect [OF entry(5)]
      have "ic s' = ic s" "dc s' = dc s" "symbol_table s' = symbol_table s"
        using drop_label_table [OF statement(3)] c1
        by (simp_all add: only_errors_differ_def same_core_def)
      then show ?thesis using inv by (simp add: pass1_inv_def)
    next
      case (extern ops)
      from process_extern_dir_effect(1,2) [OF extern(5)] extern(4)
      obtain m where "ic s' = ic s" "dc s' = dc s" "symbol_table s' = symbol_table s @ [extern_symbol m]"
        using drop_label_table [OF statement(3)] c1
        by (auto simp: same_core_def)
      then show ?thesis using inv
        by (simp add: pass1_inv_def symbol_ok_def extern_symbol_def DEFAULT_ADDR_def)
    next
      case failed
      then show ?thesis using inv c1 statement(4)
        by (simp add: rolled_back_def same_core_def pass1_inv_def)
    qed
  qed
qed

lemma first_process_line_inv:
  assumes "pass1_inv s" "first_process_line line (e, s) = Some (e', s')"
  shows "pass1_inv s'"
proof (cases "should_ignore (trim_whitespaces line)")
  case True
  then show ?thesis using assms by (auto simp: first_process_line_def Let_def pass1_inv_def)
next
  case False
  with assms(2) obtain ok s1 where p: "parse_line (trim_whitespaces line) s = Some (ok, s1)"
    and s': "s' = s1\<lparr>line_num := line_num s1 + 1\<rparr>"
    by (auto simp: first_process_line_def Let_def split: option.splits)
  from parse_line_inv [OF assms(1) p] show ?thesis using s' by (simp add: pass1_inv_def)
qed

lemma first_process_lines_inv:
  "pass1_inv s \<Longrightarrow> first_process_lines ls (e, s) = Some (e', s') \<Longrightarrow> pass1_inv s'"
proof (induction ls arbitrary: e s)
  case Nil
  then show ?case by simp
next
  case (Cons l ls)
  from Cons.prems(2) obtain e1 s1 where a: "first_process_line l (e, s) = Some (e1, s1)"
    and b: "first_process_lines ls (e1, s1) = Some (e', s')"
    by (auto split: option.splits)
  from Cons.IH [OF first_process_line_inv [OF Cons.prems(1) a] b] show ?case .
qed

lemma pass1_inv_init: "pass1_inv (first_process_init s0)"
  by (simp add: pass1_inv_def first_process_init_def MEM_SIZE_def)

lemma finalize_addresses_relocate:
  "finalize_addresses s = s\<lparr>symbol_table := map (relocate (ic s)) (symbol_table s)\<rparr>"
  by (auto simp: finalize_addresses_def update_symbol_addr_def relocate_def Let_def MEM_START_def)

lemma relocate_range:
  assumes "symbol_ok i d smb" "0 \<le> i" "i \<le> MEM_SIZE + 2" "0 \<le> d" "d \<le> MEM_SIZE" "\<not> is_ext smb"
  shows "100 \<le> uint (address (relocate i smb))" "uint (address (relocate i smb)) < 100 + i + d"
proof -
  have k: "uint (word_of_int (i + 100) :: 32 word) = i + 100"
    by (rule uint_small) (use assms(2,3) in \<open>simp_all add: MEM_SIZE_def\<close>)
  have h: "uint (100 :: 32 word) = 100" by simp
  {
    assume a: "sym_type smb = Some INSTRUCTION" "uint (address smb) < i"
    have "uint (address smb + 100) = uint (address smb) + 100"
      using a(2) assms(3) h uint_add_lem [of "address smb" 100]
      by (simp add: MEM_SIZE_def)
    then have "100 \<le> uint (address (relocate i smb)) \<and> uint (address (relocate i smb)) < 100 + i + d"
      using a assms(4,6) by (simp add: relocate_def)
  }
  moreover
  {
    assume a: "sym_type smb = Some DIRECTIVE" "uint (address smb) < d"
    have "uint (address smb + word_of_int (i + 100)) = uint (address smb) + (i + 100)"
      using a(2) assms(2,3,5) k uint_add_lem [of "address smb" "word_of_int (i + 100)"]
      by (simp add: MEM_SIZE_def)
    then have "100 \<le> uint (address (relocate i smb)) \<and> uint (address (relocate i smb)) < 100 + i + d"
      using a assms(2,6) by (simp add: relocate_def)
  }
  ultimately show "100 \<le> uint (address (relocate i smb))" "uint (address (relocate i smb)) < 100 + i + d"
    using assms(1,6) by (auto simp: symbol_ok_def)
qed

text \<open>
  C3. When the loop of pass 1 ends in the state \<open>s1\<close>, \<^verbatim>\<open>first_process\<close> returns \<open>s1\<close> with
  every symbol relocated: 100 added to the address of each non-external instruction symbol,
  the final \<open>ic\<close> plus 100 to the address of each non-external data symbol, external symbols
  unchanged. Every non-external symbol then has its address in the interval from 100
  (included) to 100 plus the final \<open>ic\<close> plus the final \<open>dc\<close> (excluded).
\<close>

theorem symbol_addresses_finalized:
  assumes scan: "first_process_lines (read_lines file) (False, first_process_init s0)
                   = Some (was_error, s1)"
  shows "first_process file s0
           = Some (was_error, s1\<lparr>symbol_table := map (relocate (ic s1)) (symbol_table s1)\<rparr>)
       \<and> list_all (\<lambda>smb. \<not> is_ext smb \<longrightarrow>
                     100 \<le> uint (address smb) \<and> uint (address smb) < 100 + ic s1 + dc s1)
           (map (relocate (ic s1)) (symbol_table s1))"
proof -
  have inv: "pass1_inv s1"
    using first_process_lines_inv [OF pass1_inv_init scan] .
  have ext: "is_ext (relocate i smb) = is_ext smb" for i smb by (simp add: relocate_def)
  have "list_all (\<lambda>smb. \<not> is_ext smb \<longrightarrow>
                     100 \<le> uint (address smb) \<and> uint (address smb) < 100 + ic s1 + dc s1)
           (map (relocate (ic s1)) (symbol_table s1))"
    using inv relocate_range [of "ic s1" "dc s1"]
    by (auto simp: pass1_inv_def list_all_iff ext)
  then show ?thesis
    using scan by (simp add: first_process_def finalize_addresses_relocate)
qed

lemma first_process_externals:
  assumes "first_process file s0 = Some (was_error, s')"
  shows "externals_at_zero (symbol_table s')"
proof -
  from assms obtain s1 where scan: "first_process_lines (read_lines file) (False, first_process_init s0)
                   = Some (was_error, s1)" and s': "s' = finalize_addresses s1"
    by (auto simp: first_process_def split: option.splits)
  have inv: "pass1_inv s1"
    using first_process_lines_inv [OF pass1_inv_init scan] .
  then show ?thesis unfolding s' finalize_addresses_relocate
    by (auto simp: pass1_inv_def externals_at_zero_def list_all_iff symbol_ok_def relocate_def)
qed

lemma example_source_scan:
  "\<not> Option.is_none (first_process_lines (read_lines example_source) (False, first_process_init init_state))
   \<and> \<not> fst (the (first_process_lines (read_lines example_source) (False, first_process_init init_state)))"
  by code_simp

theorem symbol_addresses_finalized_witness:
  "first_process example_source init_state \<noteq> None
   \<and> list_all (\<lambda>smb. \<not> is_ext smb \<longrightarrow> 100 \<le> uint (address smb) \<and> uint (address smb) < 100 + 3 + 2)
       (symbol_table (snd (the (first_process example_source init_state))))
   \<and> map address (symbol_table (snd (the (first_process example_source init_state))))
       = [100, 103, 0, 102]"
proof -
  define X where "X = first_process_lines (read_lines example_source) (False, first_process_init init_state)"
  have "X = Some (False, snd (the X))"
    using example_source_scan unfolding X_def [symmetric] by (cases X) auto
  from symbol_addresses_finalized [OF this [unfolded X_def]]
  have a: "first_process example_source init_state
           = Some (False, (snd (the X))\<lparr>symbol_table := map (relocate (ic (snd (the X)))) (symbol_table (snd (the X)))\<rparr>)"
    and b: "list_all (\<lambda>smb. \<not> is_ext smb \<longrightarrow>
                     100 \<le> uint (address smb) \<and> uint (address smb) < 100 + ic (snd (the X)) + dc (snd (the X)))
           (map (relocate (ic (snd (the X)))) (symbol_table (snd (the X))))"
    unfolding X_def by simp_all
  have c: "ic (snd (the X)) = 3" "dc (snd (the X)) = 2"
    "map address (map (relocate (ic (snd (the X)))) (symbol_table (snd (the X)))) = [100, 103, 0, 102]"
    unfolding X_def by code_simp+
  show ?thesis using a b c by simp
qed

end
